theory Spec2Isabelle
  imports Complex_Main "HOL-Library.Word"
begin

section \<open>The edit overlay of the PDF editor (js/modules/pdf-editor.js)\<close>

text \<open>
  The class \<open>PDFEditor\<close> keeps a canvas laid over the rendered page, a list of
  \<open>ImageData\<close> snapshots of that canvas with an index into it, the state of the text
  editor element and a reference to the rendering engine. Every method is modelled as a
  function from the object's state to its new state. A method that can leave by an
  exception returns \<open>js_error + PDFEditor\<close>, with \<open>Inl\<close> for the exception.
\<close>

subsection \<open>Strings\<close>

text \<open>
  The content of the text editor is a JavaScript string, a sequence of UTF-16 code units.
  \<open>String.prototype.trim\<close> removes the ECMAScript white space and line terminator code
  units from both ends; \<open>split('\n')\<close> cuts at every line feed and yields one (empty)
  segment for the empty string.
\<close>

type_synonym jsstring = "16 word list"

definition isWhiteSpace :: "16 word \<Rightarrow> bool" where
  "isWhiteSpace c \<longleftrightarrow>
     List.member [0x9, 0xA, 0xB, 0xC, 0xD, 0x20, 0xA0, 0x1680, 0x2028, 0x2029,
                  0x202F, 0x205F, 0x3000, 0xFEFF] c
     \<or> (0x2000 \<le> c \<and> c \<le> 0x200A)"

definition trim :: "jsstring \<Rightarrow> jsstring" where
  "trim t = rev (dropWhile isWhiteSpace (rev (dropWhile isWhiteSpace t)))"

fun split_lines :: "jsstring \<Rightarrow> jsstring list" where
  "split_lines [] = [[]]"
| "split_lines (c # cs) =
     (if c = 0xA then [] # split_lines cs
      else (case split_lines cs of
              [] \<Rightarrow> [[c]]
            | l # ls \<Rightarrow> (c # l) # ls))"

text \<open>
  Coordinates are JavaScript numbers, taken here as rationals. The position of the text
  editor is stored as the string \<open>x + 'px'\<close> and read back with \<open>parseInt\<close>, which
  reads the sign and the digits before the first character that is no digit. A number
  is printed in decimal notation when it is zero or its magnitude lies between
  \<open>10\<^sup>-\<^sup>6\<close> and \<open>10\<^sup>2\<^sup>1\<close>, and \<open>parseInt\<close> then reads its integer part; outside
  that range it is printed in exponent notation, as in \<open>1.5e-7\<close>, and \<open>parseInt\<close>
  reads its leading digit.
\<close>

function leading_digit_large :: "rat \<Rightarrow> int" where
  "leading_digit_large r = (if r < 10 then \<lfloor>r\<rfloor> else leading_digit_large (r / 10))"
  by pat_completeness auto
termination
proof (relation "measure (\<lambda>r. nat \<lfloor>r\<rfloor>)")
  show "wf (measure (\<lambda>r::rat. nat \<lfloor>r\<rfloor>))" by simp
next
  fix r :: rat
  assume "\<not> r < 10"
  then have r: "10 \<le> r" by simp
  have "of_int \<lfloor>r / 10\<rfloor> \<le> r / 10" by (rule of_int_floor_le)
  also have "r / 10 \<le> r - 1" using r by simp
  also have "r - 1 < of_int \<lfloor>r\<rfloor>" by linarith
  finally have lt: "\<lfloor>r / 10\<rfloor> < \<lfloor>r\<rfloor>" by (simp only: of_int_less_iff)
  have pos: "0 < \<lfloor>r\<rfloor>" using r by linarith
  show "(r / 10, r) \<in> measure (\<lambda>r. nat \<lfloor>r\<rfloor>)"
    unfolding in_measure zless_nat_conj using pos lt by (rule conjI)
qed

declare leading_digit_large.simps [simp del]

function leading_digit_small :: "rat \<Rightarrow> int" where
  "leading_digit_small r =
     (if r \<le> 0 \<or> 1 \<le> r then \<lfloor>r\<rfloor> else leading_digit_small (r * 10))"
  by pat_completeness auto
termination
proof (relation "measure (\<lambda>r. nat \<lfloor>1 / r\<rfloor>)")
  show "wf (measure (\<lambda>r::rat. nat \<lfloor>1 / r\<rfloor>))" by simp
next
  fix r :: rat
  assume "\<not> (r \<le> 0 \<or> 1 \<le> r)"
  then have r: "0 < r" "r < 1" by simp_all
  let ?a = "1 / r"
  have a: "1 < ?a" using r by simp
  have e: "1 / (r * 10) = ?a / 10" by simp
  have lt: "\<lfloor>?a / 10\<rfloor> < \<lfloor>?a\<rfloor>"
  proof (cases "?a < 10")
    case True
    then have "?a / 10 < 1" by simp
    then have "\<lfloor>?a / 10\<rfloor> < 1" by (simp only: floor_less_iff of_int_1)
    moreover have "1 \<le> \<lfloor>?a\<rfloor>" using a by linarith
    ultimately show ?thesis by linarith
  next
    case False
    have "of_int \<lfloor>?a / 10\<rfloor> \<le> ?a / 10" by (rule of_int_floor_le)
    also have "?a / 10 \<le> ?a - 1" using False by simp
    also have "?a - 1 < of_int \<lfloor>?a\<rfloor>" by linarith
    finally show ?thesis by (simp only: of_int_less_iff)
  qed
  have pos: "0 < \<lfloor>?a\<rfloor>" using a by linarith
  show "(r * 10, r) \<in> measure (\<lambda>r. nat \<lfloor>1 / r\<rfloor>)"
    unfolding in_measure zless_nat_conj e using pos lt by (rule conjI)
qed

declare leading_digit_small.simps [simp del]

definition parseInt :: "rat \<Rightarrow> int" where
  "parseInt q =
     (let a = \<bar>q\<bar>;
          d = (if a = 0 then 0
               else if a < 1 / 1000000 then leading_digit_small a
               else if 1000000000000000000000 \<le> a then leading_digit_large a
               else \<lfloor>a\<rfloor>)
      in if q < 0 then - d else d)"

subsection \<open>Canvases and ImageData\<close>

text \<open>
  A canvas bitmap and an \<open>ImageData\<close> object are both a width, a height and the RGBA
  pixels in row-major order. A new canvas element is 300 by 150 and transparent black;
  assigning \<open>width\<close> or \<open>height\<close> replaces the bitmap by a transparent black one of
  the new size.
\<close>

type_synonym pixel = "8 word \<times> 8 word \<times> 8 word \<times> 8 word"

record bitmap =
  width :: nat
  height :: nat
  pixels :: "pixel list"

definition transparent :: pixel where
  "transparent = (0, 0, 0, 0)"

definition blank :: "nat \<Rightarrow> nat \<Rightarrow> bitmap" where
  "blank w h = \<lparr>width = w, height = h, pixels = replicate (w * h) transparent\<rparr>"

definition wf_bitmap :: "bitmap \<Rightarrow> bool" where
  "wf_bitmap b \<longleftrightarrow> length (pixels b) = width b * height b"

definition pixel_at :: "bitmap \<Rightarrow> nat \<Rightarrow> nat \<Rightarrow> pixel" where
  "pixel_at b x y =
     (if x < width b \<and> y < height b \<and> y * width b + x < length (pixels b)
      then pixels b ! (y * width b + x) else transparent)"

datatype js_error = TypeError | IndexSizeError | InvalidStateError | Error string

text \<open>
  \<open>getImageData(0, 0, width, height)\<close> copies the whole bitmap; the canvas API raises
  \<open>IndexSizeError\<close> for a rectangle with a zero side.
\<close>

definition getImageData :: "bitmap \<Rightarrow> js_error + bitmap" where
  "getImageData c = (if width c = 0 \<or> height c = 0 then Inl IndexSizeError else Inr c)"

text \<open>
  \<open>putImageData(imageData, 0, 0)\<close> overwrites the canvas pixels that lie inside the
  image, placed at the origin; the canvas keeps its size, and its pixels outside the image
  stay as they are. No dimension is compared.
\<close>

definition putImageData :: "bitmap \<Rightarrow> bitmap \<Rightarrow> bitmap" where
  "putImageData img c =
     c\<lparr>pixels :=
         map (\<lambda>i. if i mod width c < width img \<and> i div width c < height img
                  then pixel_at img (i mod width c) (i div width c)
                  else pixel_at c (i mod width c) (i div width c))
             [0 ..< width c * height c]\<rparr>"

text \<open>\<open>clearRect(0, 0, width, height)\<close> on the untransformed context.\<close>

definition clearRect :: "bitmap \<Rightarrow> bitmap" where
  "clearRect c = c\<lparr>pixels := replicate (width c * height c) transparent\<rparr>"

text \<open>
  Text and rectangles are painted by the browser. The model takes the painting as a
  parameter: each function of a \<open>renderer\<close> returns the pixels of the bitmap after the
  call, so that the size of the canvas is kept by construction. \<open>fillText\<close> gets the
  fill style, the font size and family, the line and its position; \<open>fillRect\<close> gets the
  fill style, the global alpha and the rectangle; \<open>sourceOver\<close> composes one pixel
  over another, as \<open>drawImage\<close> does.
\<close>

record renderer =
  fillText :: "string \<Rightarrow> rat \<Rightarrow> string \<Rightarrow> jsstring \<Rightarrow> rat \<Rightarrow> rat \<Rightarrow> bitmap \<Rightarrow> pixel list"
  fillRect :: "string \<Rightarrow> rat \<Rightarrow> rat \<Rightarrow> rat \<Rightarrow> rat \<Rightarrow> rat \<Rightarrow> bitmap \<Rightarrow> pixel list"
  sourceOver :: "pixel \<Rightarrow> pixel \<Rightarrow> pixel"

text \<open>
  \<open>drawImage(source, 0, 0)\<close> with a canvas as the source raises \<open>InvalidStateError\<close>
  when the source has a zero side. Otherwise each pixel of the destination that lies
  inside the source, placed at the origin, becomes the source's pixel composed over it.
\<close>

definition drawImage :: "renderer \<Rightarrow> bitmap \<Rightarrow> bitmap \<Rightarrow> js_error + bitmap" where
  "drawImage R src dst =
     (if width src = 0 \<or> height src = 0 then Inl InvalidStateError
      else Inr (dst\<lparr>pixels :=
         map (\<lambda>i. if i mod width dst < width src \<and> i div width dst < height src
                  then sourceOver R (pixel_at src (i mod width dst) (i div width dst))
                                    (pixel_at dst (i mod width dst) (i div width dst))
                  else pixel_at dst (i mod width dst) (i div width dst))
             [0 ..< width dst * height dst]\<rparr>))"

subsection \<open>The engine, as far as the editor reads it\<close>

text \<open>
  Of \<open>PDFEngine\<close> (js/modules/pdf-engine.js) the editor reads \<open>currentPDF\<close> and listens
  to \<open>pageRendered\<close>. \<open>currentPDF\<close> is \<open>None\<close> for \<open>null\<close> and otherwise holds the
  number of pages of the loaded document. The events the engine emits are recorded in
  \<open>engineEmitted\<close>, oldest first.
\<close>

datatype engine_event = PdfLoaded | PageRendered int

record PDFEngine =
  currentPDF :: "nat option"
  currentPage :: int
  totalPages :: int
  engineEmitted :: "engine_event list"

definition PDFEngine_new :: PDFEngine where
  "PDFEngine_new = \<lparr>currentPDF = None, currentPage = 1, totalPages = 0, engineEmitted = []\<rparr>"

text \<open>\<open>loadPDF\<close> when the document loads: a document of \<open>n\<close> pages.\<close>

definition loadPDF :: "nat \<Rightarrow> PDFEngine \<Rightarrow> PDFEngine" where
  "loadPDF n e =
     e\<lparr>currentPDF := Some n, totalPages := int n, currentPage := 1,
       engineEmitted := engineEmitted e @ [PdfLoaded]\<rparr>"

text \<open>
  \<open>renderPage\<close>, on the engine's own state: the two guards, the current page and the
  notification. The message of the second error ends with the page number in the source.
\<close>

definition renderPage :: "int \<Rightarrow> PDFEngine \<Rightarrow> js_error + PDFEngine" where
  "renderPage pageNumber e =
     (if currentPDF e = None then Inl (Error ''No PDF loaded'')
      else if pageNumber < 1 \<or> pageNumber > totalPages e
        then Inl (Error ''Invalid page number'')
      else Inr (e\<lparr>currentPage := pageNumber,
                   engineEmitted := engineEmitted e @ [PageRendered pageNumber]\<rparr>))"

subsection \<open>The editor's state\<close>

text \<open>
  The fields of \<open>PDFEditor\<close>, with the parts of the document the methods touch:
  \<open>cursor\<close> and \<open>pointerEvents\<close> are the style properties of the edit canvas and of the
  overlay container, \<open>textContent\<close>, \<open>editorLeft\<close>, \<open>editorTop\<close> and
  \<open>editorDisplay\<close> belong to the text editor element, \<open>pdfCanvas\<close> is the element
  with id \<open>pdf-canvas\<close>, \<open>None\<close> in a document that has none, and \<open>emitted\<close>
  records the calls of \<open>emit\<close>, oldest first. \<open>PDFEditor_new page\<close> is the editor
  constructed in a document whose page canvas holds \<open>page\<close>.
  \<open>maxHistorySize\<close> is assigned once, in the constructor. The position of the text
  editor is read only while text is edited, after \<open>startTextEdit\<close> has set it.
  Assignments to other style properties and to class lists change none of these fields
  and are left out, as are the listeners, which run outside the editor.
\<close>

datatype event =
  StateChanged bool bool | ToolChanged string | EditModeEnabled | EditModeDisabled

record PDFEditor =
  engine :: "PDFEngine option"
  isEditMode :: bool
  selectedElement :: "nat option"
  editHistory :: "bitmap list"
  historyIndex :: int
  currentTool :: string
  textColor :: string
  textSize :: rat
  textFont :: string
  strokeColor :: string
  strokeWidth :: rat
  fillColor :: string
  editCanvas :: bitmap
  cursor :: string
  pointerEvents :: string
  editingText :: bool
  textContent :: jsstring
  editorLeft :: rat
  editorTop :: rat
  editorDisplay :: string
  isDrawing :: bool
  drawPath :: "(rat \<times> rat) list"
  pdfCanvas :: "bitmap option"
  emitted :: "event list"

definition maxHistorySize :: nat where
  "maxHistorySize = 50"

definition PDFEditor_new :: "bitmap \<Rightarrow> PDFEditor" where
  "PDFEditor_new page =
     \<lparr>engine = None, isEditMode = False, selectedElement = None,
      editHistory = [], historyIndex = - 1,
      currentTool = ''text'', textColor = ''#000000'', textSize = 12,
      textFont = ''Helvetica'', strokeColor = ''#ff0000'', strokeWidth = 2,
      fillColor = ''#ffff00'',
      editCanvas = blank 300 150, cursor = ''crosshair'', pointerEvents = ''none'',
      editingText = False, textContent = [], editorLeft = 0, editorTop = 0,
      editorDisplay = ''none'', isDrawing = False, drawPath = [],
      pdfCanvas = Some page, emitted = []\<rparr>"

definition emit :: "event \<Rightarrow> PDFEditor \<Rightarrow> PDFEditor" where
  "emit ev s = s\<lparr>emitted := emitted s @ [ev]\<rparr>"

definition and_then :: "js_error + 'a \<Rightarrow> ('a \<Rightarrow> js_error + 'b) \<Rightarrow> js_error + 'b" where
  "and_then r f = (case r of Inl e \<Rightarrow> Inl e | Inr x \<Rightarrow> f x)"

subsection \<open>History management\<close>

text \<open>
  \<open>xs.slice(0, e)\<close>: a negative end counts from the end of the array, and both bounds
  are clamped. \<open>xs[i]\<close> is \<open>undefined\<close> outside the array.
\<close>

definition slice0 :: "'a list \<Rightarrow> int \<Rightarrow> 'a list" where
  "slice0 xs e = (if e < 0 then take (nat (int (length xs) + e)) xs else take (nat e) xs)"

definition index :: "'a list \<Rightarrow> int \<Rightarrow> 'a option" where
  "index xs i = (if 0 \<le> i \<and> i < int (length xs) then Some (xs ! nat i) else None)"

definition canUndo :: "PDFEditor \<Rightarrow> bool" where
  "canUndo s \<longleftrightarrow> historyIndex s > 0"

definition canRedo :: "PDFEditor \<Rightarrow> bool" where
  "canRedo s \<longleftrightarrow> historyIndex s < int (length (editHistory s)) - 1"

definition saveState :: "PDFEditor \<Rightarrow> js_error + PDFEditor" where
  "saveState s =
     (let s1 = s\<lparr>editHistory := slice0 (editHistory s) (historyIndex s + 1)\<rparr> in
      and_then (getImageData (editCanvas s1)) (\<lambda>imageData.
        let s2 = s1\<lparr>editHistory := editHistory s1 @ [imageData]\<rparr>;
            s3 = (if length (editHistory s2) > maxHistorySize
                  then s2\<lparr>editHistory := tl (editHistory s2)\<rparr>
                  else s2\<lparr>historyIndex := historyIndex s2 + 1\<rparr>)
        in Inr (emit (StateChanged (canUndo s3) (canRedo s3)) s3)))"

text \<open>\<open>restoreState\<close> passes its argument to \<open>putImageData\<close>, which raises a
  \<open>TypeError\<close> for \<open>undefined\<close>.\<close>

definition restoreState :: "bitmap option \<Rightarrow> PDFEditor \<Rightarrow> js_error + PDFEditor" where
  "restoreState imageData s =
     (case imageData of
        None \<Rightarrow> Inl TypeError
      | Some img \<Rightarrow> Inr (s\<lparr>editCanvas := putImageData img (editCanvas s)\<rparr>))"

definition undo :: "PDFEditor \<Rightarrow> js_error + PDFEditor" where
  "undo s =
     (if \<not> canUndo s then Inr s
      else
        let s1 = s\<lparr>historyIndex := historyIndex s - 1\<rparr> in
        and_then (restoreState (index (editHistory s1) (historyIndex s1)) s1) (\<lambda>s2.
          Inr (emit (StateChanged (canUndo s2) (canRedo s2)) s2)))"

definition redo :: "PDFEditor \<Rightarrow> js_error + PDFEditor" where
  "redo s =
     (if \<not> canRedo s then Inr s
      else
        let s1 = s\<lparr>historyIndex := historyIndex s + 1\<rparr> in
        and_then (restoreState (index (editHistory s1) (historyIndex s1)) s1) (\<lambda>s2.
          Inr (emit (StateChanged (canUndo s2) (canRedo s2)) s2)))"

subsection \<open>Text editing\<close>

definition cancelTextEdit :: "PDFEditor \<Rightarrow> PDFEditor" where
  "cancelTextEdit s = s\<lparr>editingText := False, editorDisplay := ''none'', textContent := []\<rparr>"

text \<open>
  \<open>addTextElement\<close> paints the lines of the text one below the other, line \<open>i\<close> at
  \<open>y + i * textSize * 1.2\<close>, with the context's fill style and font saved and restored
  around the painting.
\<close>

definition addTextElement :: "renderer \<Rightarrow> jsstring \<Rightarrow> int \<Rightarrow> int \<Rightarrow> PDFEditor \<Rightarrow> PDFEditor" where
  "addTextElement R text x y s =
     s\<lparr>editCanvas :=
         foldl (\<lambda>c (i, line).
                  c\<lparr>pixels := fillText R (textColor s) (textSize s) (textFont s) line
                                 (of_int x) (of_int y + of_nat i * textSize s * (6 / 5)) c\<rparr>)
               (editCanvas s) (enumerate 0 (split_lines text))\<rparr>"

definition finishTextEdit :: "renderer \<Rightarrow> PDFEditor \<Rightarrow> js_error + PDFEditor" where
  "finishTextEdit R s =
     (if \<not> editingText s \<or> trim (textContent s) = [] then Inr (cancelTextEdit s)
      else
        let text = textContent s;
            x = parseInt (editorLeft s);
            y = parseInt (editorTop s)
        in saveState (cancelTextEdit (addTextElement R text x y s)))"

definition startTextEdit :: "renderer \<Rightarrow> rat \<Rightarrow> rat \<Rightarrow> PDFEditor \<Rightarrow> js_error + PDFEditor" where
  "startTextEdit R x y s =
     and_then (finishTextEdit R s) (\<lambda>s1.
       Inr (s1\<lparr>editingText := True, editorDisplay := ''block'',
                editorLeft := x, editorTop := y, textContent := []\<rparr>))"

subsection \<open>Tools and pointer input\<close>

definition clearSelection :: "PDFEditor \<Rightarrow> PDFEditor" where
  "clearSelection s = s\<lparr>selectedElement := None\<rparr>"

definition selectElement :: "rat \<Rightarrow> rat \<Rightarrow> PDFEditor \<Rightarrow> PDFEditor" where
  "selectElement x y s = clearSelection s"

definition setTool :: "renderer \<Rightarrow> string \<Rightarrow> PDFEditor \<Rightarrow> js_error + PDFEditor" where
  "setTool R tool s =
     and_then (finishTextEdit R (s\<lparr>currentTool := tool\<rparr>)) (\<lambda>s1.
       let s2 = clearSelection s1;
           s3 = s2\<lparr>cursor :=
                     (if tool = ''text'' then ''text''
                      else if tool = ''draw'' then ''crosshair''
                      else if tool = ''highlight'' then ''cell''
                      else if tool = ''select'' then ''default''
                      else ''crosshair'')\<rparr>
       in Inr (emit (ToolChanged tool) s3))"

text \<open>
  \<open>startDrawing\<close> also opens a path on the context and sets its stroke style; strokes
  are not part of this model, so only the fields of the editor are kept.
\<close>

definition startDrawing :: "rat \<Rightarrow> rat \<Rightarrow> PDFEditor \<Rightarrow> PDFEditor" where
  "startDrawing x y s = s\<lparr>isDrawing := True, drawPath := [(x, y)]\<rparr>"

definition startHighlight :: "renderer \<Rightarrow> rat \<Rightarrow> rat \<Rightarrow> PDFEditor \<Rightarrow> js_error + PDFEditor" where
  "startHighlight R x y s =
     saveState
       (s\<lparr>editCanvas :=
            (editCanvas s)\<lparr>pixels :=
               fillRect R (fillColor s) (3 / 10) (x - 50) (y - 5) 100 20 (editCanvas s)\<rparr>\<rparr>)"

text \<open>
  \<open>handleEditMouseDown\<close>, given the position of the pointer already scaled to the
  canvas, which the source computes from the event and the bounding rectangle.
\<close>

definition handleEditMouseDown :: "renderer \<Rightarrow> rat \<Rightarrow> rat \<Rightarrow> PDFEditor \<Rightarrow> js_error + PDFEditor" where
  "handleEditMouseDown R x y s =
     (if \<not> isEditMode s then Inr s
      else if currentTool s = ''text'' then startTextEdit R x y s
      else if currentTool s = ''draw'' then Inr (startDrawing x y s)
      else if currentTool s = ''highlight'' then startHighlight R x y s
      else if currentTool s = ''select'' then Inr (selectElement x y s)
      else Inr s)"

definition enableEditMode :: "PDFEditor \<Rightarrow> PDFEditor" where
  "enableEditMode s = emit EditModeEnabled (s\<lparr>isEditMode := True, pointerEvents := ''auto''\<rparr>)"

definition disableEditMode :: "renderer \<Rightarrow> PDFEditor \<Rightarrow> js_error + PDFEditor" where
  "disableEditMode R s =
     and_then (finishTextEdit R (s\<lparr>isEditMode := False, pointerEvents := ''none''\<rparr>)) (\<lambda>s1.
       Inr (emit EditModeDisabled (clearSelection s1)))"

subsection \<open>Canvas management, export and clearing\<close>

text \<open>
  The data of a \<open>pageRendered\<close> notification, of which \<open>syncOverlaySize\<close> reads the
  canvas. The method assigns the width and the height of the edit canvas, which empties
  it, and places the element over the page inside the container of the overlay; the
  placement is CSS only and left out.
\<close>

record renderData =
  canvas :: "bitmap option"

definition syncOverlaySize :: "renderData \<Rightarrow> PDFEditor \<Rightarrow> PDFEditor" where
  "syncOverlaySize rd s =
     (case canvas rd of
        None \<Rightarrow> s
      | Some sourceCanvas \<Rightarrow>
          s\<lparr>editCanvas := blank (width sourceCanvas) (height sourceCanvas)\<rparr>)"

definition setEngine :: "PDFEngine option \<Rightarrow> PDFEditor \<Rightarrow> PDFEditor" where
  "setEngine e s = s\<lparr>engine := e\<rparr>"

text \<open>
  The engine the editor refers to loads a document, and renders a page on the page
  canvas: \<open>page\<close> is the bitmap that the rendering library leaves there. Without the
  element the engine has no canvas and the rendering raises \<open>TypeError\<close>. The listener
  registered by \<open>setEngine\<close> then calls \<open>syncOverlaySize\<close>. An editor without an
  engine hears of no rendering.
\<close>

definition engine_loadPDF :: "nat \<Rightarrow> PDFEditor \<Rightarrow> PDFEditor" where
  "engine_loadPDF n s = s\<lparr>engine := map_option (loadPDF n) (engine s)\<rparr>"

definition engine_renderPage :: "bitmap \<Rightarrow> int \<Rightarrow> PDFEditor \<Rightarrow> js_error + PDFEditor" where
  "engine_renderPage page pageNumber s =
     (case engine s of
        None \<Rightarrow> Inr s
      | Some e \<Rightarrow>
          and_then (renderPage pageNumber e) (\<lambda>e1.
            case pdfCanvas s of
              None \<Rightarrow> Inl TypeError
            | Some c \<Rightarrow>
                Inr (syncOverlaySize \<lparr>canvas = Some page\<rparr>
                       (s\<lparr>engine := Some e1, pdfCanvas := Some page\<rparr>))))"

text \<open>
  \<open>exportAsImage\<close> looks the page canvas up, which raises \<open>TypeError\<close> when the
  element is missing, and draws the page canvas and then the edit canvas on a new canvas
  of the page's size; the result stands for its PNG encoding.
\<close>

definition exportAsImage :: "renderer \<Rightarrow> PDFEditor \<Rightarrow> js_error + bitmap" where
  "exportAsImage R s =
     (case pdfCanvas s of
        None \<Rightarrow> Inl TypeError
      | Some originalCanvas \<Rightarrow>
          let combinedCanvas = blank (width originalCanvas) (height originalCanvas) in
          and_then (drawImage R originalCanvas combinedCanvas) (\<lambda>c1.
            drawImage R (editCanvas s) c1))"

definition exportEditedPDF :: "renderer \<Rightarrow> PDFEditor \<Rightarrow> js_error + bitmap" where
  "exportEditedPDF R s =
     (case engine s of
        None \<Rightarrow> Inl (Error ''No PDF loaded'')
      | Some e \<Rightarrow>
          (case currentPDF e of
             None \<Rightarrow> Inl (Error ''No PDF loaded'')
           | Some d \<Rightarrow> exportAsImage R s))"

definition clearAllEdits :: "PDFEditor \<Rightarrow> js_error + PDFEditor" where
  "clearAllEdits s =
     saveState (s\<lparr>editCanvas := clearRect (editCanvas s), editHistory := [],
                  historyIndex := - 1\<rparr>)"

subsection \<open>Notions used by the properties\<close>

text \<open>
  The history is in order when the index is \<open>-1\<close> or points at an entry and at most
  \<open>maxHistorySize\<close> entries are held. The constructor establishes this and every
  method keeps it.
\<close>

definition history_ok :: "PDFEditor \<Rightarrow> bool" where
  "history_ok s \<longleftrightarrow>
     - 1 \<le> historyIndex s \<and> historyIndex s < int (length (editHistory s))
     \<and> length (editHistory s) \<le> maxHistorySize"

definition nonempty :: "bitmap \<Rightarrow> bool" where
  "nonempty b \<longleftrightarrow> 0 < width b \<and> 0 < height b"

text \<open>The array that \<open>saveState\<close> has built when it has pushed the snapshot.\<close>

definition pushed :: "PDFEditor \<Rightarrow> bitmap list" where
  "pushed s = slice0 (editHistory s) (historyIndex s + 1) @ [editCanvas s]"

text \<open>The last \<open>n\<close> elements of a list, oldest first.\<close>

definition most_recent :: "nat \<Rightarrow> 'a list \<Rightarrow> 'a list" where
  "most_recent n xs = drop (length xs - n) xs"

text \<open>
  A sequence of captures: before each call of \<open>saveState\<close> the edit canvas holds the
  next bitmap of the list, whatever was painted in between.
\<close>

fun captures :: "bitmap list \<Rightarrow> PDFEditor \<Rightarrow> js_error + PDFEditor" where
  "captures [] s = Inr s"
| "captures (b # bs) s = and_then (saveState (s\<lparr>editCanvas := b\<rparr>)) (captures bs)"

text \<open>
  Painting between two calls of the editor: whatever the drawing calls on the context
  are, they leave the edit canvas holding some bitmap \<open>b\<close>.
\<close>

definition repaint :: "bitmap \<Rightarrow> PDFEditor \<Rightarrow> js_error + PDFEditor" where
  "repaint b s = Inr (s\<lparr>editCanvas := b\<rparr>)"

text \<open>
  Text rasterised as the specification words the commit: one line for each segment of
  the text, in the given colour, size and font, by one \<open>fillText\<close> of the renderer
  each, line \<open>i\<close> with its top at the recorded position lowered by \<open>i\<close> times 1.2
  times the font size.
\<close>

fun paint_lines ::
  "renderer \<Rightarrow> string \<Rightarrow> rat \<Rightarrow> string \<Rightarrow> rat \<Rightarrow> rat \<Rightarrow> nat \<Rightarrow> jsstring list \<Rightarrow> bitmap \<Rightarrow> bitmap" where
  "paint_lines R colour px font x y i [] c = c"
| "paint_lines R colour px font x y i (l # ls) c =
     paint_lines R colour px font x y (Suc i) ls
       (c\<lparr>pixels := fillText R colour px font l x (y + of_nat i * px * (6 / 5)) c\<rparr>)"

text \<open>The segments put together again, a line feed between two of them.\<close>

fun join_lines :: "jsstring list \<Rightarrow> jsstring" where
  "join_lines [] = []"
| "join_lines [l] = l"
| "join_lines (l # ls) = l @ [0xA] @ join_lines ls"

text \<open>Calls one after the other; an exception ends the sequence.\<close>

fun run :: "('a \<Rightarrow> js_error + 'a) list \<Rightarrow> 'a \<Rightarrow> js_error + 'a" where
  "run [] s = Inr s"
| "run (f # fs) s = and_then (f s) (run fs)"

text \<open>A call has returned and has left the history, its index and the canvas alone.\<close>

definition overlay_untouched :: "PDFEditor \<Rightarrow> js_error + PDFEditor \<Rightarrow> bool" where
  "overlay_untouched s r =
     (case r of
        Inl e \<Rightarrow> False
      | Inr s' \<Rightarrow> editHistory s' = editHistory s \<and> historyIndex s' = historyIndex s
                 \<and> editCanvas s' = editCanvas s)"

definition is_PageRendered :: "engine_event \<Rightarrow> bool" where
  "is_PageRendered ev = (case ev of PageRendered n \<Rightarrow> True | PdfLoaded \<Rightarrow> False)"

text \<open>The engine of the editor has announced a rendered page at least once.\<close>

definition pageEverRendered :: "PDFEditor \<Rightarrow> bool" where
  "pageEverRendered s =
     (case engine s of
        None \<Rightarrow> False
      | Some e \<Rightarrow> list_ex is_PageRendered (engineEmitted e))"

text \<open>
  A small renderer for the concrete instances below: a non-empty line blackens the pixel
  at its position, a rectangle blackens the pixel at its corner, and a pixel drawn over
  another hides it unless it is fully transparent.
\<close>

definition paint_at :: "rat \<Rightarrow> rat \<Rightarrow> bitmap \<Rightarrow> pixel list" where
  "paint_at x y b =
     (if 0 \<le> x \<and> 0 \<le> y \<and> nat \<lfloor>x\<rfloor> < width b \<and> nat \<lfloor>y\<rfloor> < height b
      then (pixels b)[nat \<lfloor>y\<rfloor> * width b + nat \<lfloor>x\<rfloor> := (0, 0, 0, 255)]
      else pixels b)"

definition sample_renderer :: renderer where
  "sample_renderer =
     \<lparr>fillText = (\<lambda>style size family line x y b. if line = [] then pixels b else paint_at x y b),
      fillRect = (\<lambda>style alpha x y w h b. paint_at x y b),
      sourceOver = (\<lambda>top bottom. if snd (snd (snd top)) = 0 then bottom else top)\<rparr>"

section \<open>Properties\<close>

subsection \<open>Auxiliary facts\<close>

lemma and_then_Inr [simp]: "and_then (Inr x) f = f x"
  by (simp add: and_then_def)

lemma and_then_Inl [simp]: "and_then (Inl e) f = Inl e"
  by (simp add: and_then_def)

lemma blank_sel [simp]:
  "width (blank w h) = w" "height (blank w h) = h"
  "pixels (blank w h) = replicate (w * h) transparent"
  by (simp_all add: blank_def)

lemma getImageData_nonempty: "nonempty c \<Longrightarrow> getImageData c = Inr c"
  by (simp add: getImageData_def nonempty_def)

lemma getImageData_empty: "\<not> nonempty c \<Longrightarrow> getImageData c = Inl IndexSizeError"
  by (simp add: getImageData_def nonempty_def)

lemma emit_sel [simp]:
  "editHistory (emit ev s) = editHistory s"
  "historyIndex (emit ev s) = historyIndex s"
  "editCanvas (emit ev s) = editCanvas s"
  "emitted (emit ev s) = emitted s @ [ev]"
  "currentTool (emit ev s) = currentTool s"
  "cursor (emit ev s) = cursor s"
  "editingText (emit ev s) = editingText s"
  "textContent (emit ev s) = textContent s"
  "editorLeft (emit ev s) = editorLeft s"
  "editorTop (emit ev s) = editorTop s"
  "engine (emit ev s) = engine s"
  by (simp_all add: emit_def)


lemma saveState_empty: "\<not> nonempty (editCanvas s) \<Longrightarrow> saveState s = Inl IndexSizeError"
  by (simp add: saveState_def Let_def getImageData_empty)

lemma saveState_nonempty:
  assumes "nonempty (editCanvas s)"
  obtains s' where "saveState s = Inr s'"
    and "editHistory s' = (if length (pushed s) > maxHistorySize then tl (pushed s) else pushed s)"
    and "historyIndex s' = (if length (pushed s) > maxHistorySize then historyIndex s else historyIndex s + 1)"
    and "editCanvas s' = editCanvas s"
    and "emitted s' = emitted s @ [StateChanged (canUndo s') (canRedo s')]"
    and "editingText s' = editingText s" and "textContent s' = textContent s"
    and "currentTool s' = currentTool s" and "engine s' = engine s"
    and "editorLeft s' = editorLeft s" and "editorTop s' = editorTop s"
  using assms
  by (simp add: saveState_def Let_def getImageData_nonempty pushed_def canUndo_def canRedo_def)

lemma length_pushed: "history_ok s \<Longrightarrow> length (pushed s) = nat (historyIndex s + 2)"
  by (auto simp: pushed_def slice0_def history_ok_def)

lemma most_recent_all: "length xs \<le> n \<Longrightarrow> most_recent n xs = xs"
  by (simp add: most_recent_def)

lemma most_recent_tl: "length xs = Suc n \<Longrightarrow> most_recent n xs = tl xs"
  by (cases xs) (simp_all add: most_recent_def)

lemma length_most_recent: "length (most_recent n xs) = min n (length xs)"
  by (simp add: most_recent_def)

lemma most_recent_append: "most_recent n (most_recent n xs @ ys) = most_recent n (xs @ ys)"
  by (cases "length xs \<le> n") (simp_all add: most_recent_def add.commute)

lemma saveState_ok:
  assumes "history_ok s" "nonempty (editCanvas s)"
  obtains s' where "saveState s = Inr s'"
    and "editHistory s' = most_recent maxHistorySize (pushed s)"
    and "historyIndex s' = int (length (editHistory s')) - 1"
    and "history_ok s'"
    and "editCanvas s' = editCanvas s"
proof -
  from assms(2) obtain s' where s': "saveState s = Inr s'"
    "editHistory s' = (if length (pushed s) > maxHistorySize then tl (pushed s) else pushed s)"
    "historyIndex s' = (if length (pushed s) > maxHistorySize then historyIndex s else historyIndex s + 1)"
    "editCanvas s' = editCanvas s"
    by (rule saveState_nonempty)
  have len: "length (pushed s) = nat (historyIndex s + 2)"
    using assms(1) by (rule length_pushed)
  have bound: "length (pushed s) \<le> Suc maxHistorySize"
    using assms(1) len unfolding history_ok_def by linarith
  have h: "editHistory s' = most_recent maxHistorySize (pushed s)"
  proof (cases "length (pushed s) > maxHistorySize")
    case True
    with bound have "length (pushed s) = Suc maxHistorySize" by simp
    then show ?thesis using True s'(2) by (simp add: most_recent_tl)
  next
    case False
    then show ?thesis using s'(2) by (simp add: most_recent_all)
  qed
  have i: "historyIndex s' = int (length (editHistory s')) - 1"
    using s'(2,3) len assms(1) bound by (auto simp: history_ok_def)
  have ok: "history_ok s'"
    using i s'(2) bound len by (auto simp: history_ok_def)
  from s'(1) h i ok s'(4) show thesis by (rule that)
qed


lemma slice0_length: "slice0 xs (int (length xs)) = xs"
  by (simp add: slice0_def)

lemma most_recent_last:
  assumes "0 < n" "xs \<noteq> []"
  shows "most_recent n xs \<noteq> []" "last (most_recent n xs) = last xs"
proof -
  from assms have "length xs - n < length xs" by (cases xs) auto
  then show "most_recent n xs \<noteq> []" "last (most_recent n xs) = last xs"
    by (simp_all add: most_recent_def)
qed

lemma captures_at_end:
  assumes "history_ok s" "historyIndex s = int (length (editHistory s)) - 1"
    "list_all nonempty bs"
  shows "\<exists>s'. captures bs s = Inr s'
           \<and> editHistory s' = most_recent maxHistorySize (editHistory s @ bs)
           \<and> historyIndex s' = int (length (editHistory s')) - 1
           \<and> history_ok s'"
  using assms
proof (induction bs arbitrary: s)
  case Nil
  then show ?case by (simp add: most_recent_all history_ok_def)
next
  case (Cons b bs)
  let ?t = "s\<lparr>editCanvas := b\<rparr>"
  have ok: "history_ok ?t" using Cons.prems(1) by (simp add: history_ok_def)
  have ne: "nonempty (editCanvas ?t)" using Cons.prems(3) by simp
  from ok ne obtain s1 where s1: "saveState ?t = Inr s1"
    "editHistory s1 = most_recent maxHistorySize (pushed ?t)"
    "historyIndex s1 = int (length (editHistory s1)) - 1" "history_ok s1"
    by (rule saveState_ok)
  have p: "pushed ?t = editHistory s @ [b]"
    using Cons.prems(2) by (simp add: pushed_def slice0_length)
  from Cons.prems(3) have "list_all nonempty bs" by simp
  with Cons.IH [OF s1(4) s1(3)] obtain s' where s': "captures bs s1 = Inr s'"
    "editHistory s' = most_recent maxHistorySize (editHistory s1 @ bs)"
    "historyIndex s' = int (length (editHistory s')) - 1" "history_ok s'"
    by blast
  have "editHistory s' = most_recent maxHistorySize (editHistory s @ b # bs)"
    using s'(2) s1(2) p by (simp add: most_recent_append)
  with s1(1) s'(1,3,4) show ?case by simp
qed

lemma run_append: "run (fs @ gs) s = and_then (run fs s) (run gs)"
proof (induction fs arbitrary: s)
  case Nil
  show ?case by simp
next
  case (Cons f fs)
  show ?case by (cases "f s") (simp_all add: Cons.IH)
qed

lemma two_captures:
  assumes "editHistory s = []" "historyIndex s = - 1" "nonempty (editCanvas s)"
  shows "\<exists>s'. run [saveState, saveState] s = Inr s'
           \<and> editHistory s' = [editCanvas s, editCanvas s] \<and> historyIndex s' = 1
           \<and> editCanvas s' = editCanvas s"
proof -
  let ?c = "editCanvas s"
  have p0: "pushed s = [?c]"
    using assms(1,2) by (simp add: pushed_def slice0_def)
  from assms(3) obtain s1 where s1: "saveState s = Inr s1"
    "editHistory s1 = [?c]" "historyIndex s1 = 0" "editCanvas s1 = ?c"
    by (rule saveState_nonempty) (simp add: p0 assms(2) maxHistorySize_def)
  have p1: "pushed s1 = [?c, ?c]"
    using s1 by (simp add: pushed_def slice0_def)
  from assms(3) s1(4) have "nonempty (editCanvas s1)" by simp
  then obtain s2 where s2: "saveState s1 = Inr s2"
    "editHistory s2 = [?c, ?c]" "historyIndex s2 = 1" "editCanvas s2 = ?c"
    by (rule saveState_nonempty) (simp add: p1 s1 maxHistorySize_def)
  from s1(1) s2 show ?thesis by simp
qed

lemma putImageData_size [simp]:
  "width (putImageData img c) = width c" "height (putImageData img c) = height c"
  by (simp_all add: putImageData_def)

lemma putImageData_same_size:
  assumes "wf_bitmap img" "width c = width img" "height c = height img"
  shows "pixels (putImageData img c) = pixels img"
proof (rule nth_equalityI)
  show "length (pixels (putImageData img c)) = length (pixels img)"
    using assms by (simp add: putImageData_def wf_bitmap_def)
next
  fix i assume "i < length (pixels (putImageData img c))"
  then have i: "i < width img * height img"
    using assms by (simp add: putImageData_def)
  then have w: "0 < width img" by (cases "width img") auto
  have m: "i mod width img < width img" using w by simp
  have d: "i div width img < height img"
    using i by (simp add: less_mult_imp_div_less mult.commute)
  have "pixel_at img (i mod width img) (i div width img) = pixels img ! i"
    using m d i assms(1) by (simp add: pixel_at_def wf_bitmap_def)
  then show "pixels (putImageData img c) ! i = pixels img ! i"
    using i m d assms(2,3) by (simp add: putImageData_def)
qed

lemma foldl_size:
  assumes "\<And>c x. width (f c x) = width c \<and> height (f c x) = height c"
  shows "width (foldl f c xs) = width c \<and> height (foldl f c xs) = height c"
  by (induction xs arbitrary: c) (simp_all add: assms)

lemma addTextElement_size:
  "width (editCanvas (addTextElement R t x y s)) = width (editCanvas s)"
  "height (editCanvas (addTextElement R t x y s)) = height (editCanvas s)"
  by (simp_all add: addTextElement_def foldl_size split_def)

lemma addTextElement_sel [simp]:
  "editHistory (addTextElement R t x y s) = editHistory s"
  "historyIndex (addTextElement R t x y s) = historyIndex s"
  "emitted (addTextElement R t x y s) = emitted s"
  "currentTool (addTextElement R t x y s) = currentTool s"
  by (simp_all add: addTextElement_def)

lemma cancelTextEdit_sel [simp]:
  "editHistory (cancelTextEdit s) = editHistory s"
  "historyIndex (cancelTextEdit s) = historyIndex s"
  "editCanvas (cancelTextEdit s) = editCanvas s"
  "emitted (cancelTextEdit s) = emitted s"
  "currentTool (cancelTextEdit s) = currentTool s"
  "editingText (cancelTextEdit s) = False"
  "textContent (cancelTextEdit s) = []"
  by (simp_all add: cancelTextEdit_def)

lemma finishTextEdit_cancel:
  "\<not> editingText s \<or> trim (textContent s) = [] \<Longrightarrow> finishTextEdit R s = Inr (cancelTextEdit s)"
  by (auto simp: finishTextEdit_def)

lemma syncOverlaySize_Some:
  "syncOverlaySize \<lparr>canvas = Some c\<rparr> s = s\<lparr>editCanvas := blank (width c) (height c)\<rparr>"
  by (simp add: syncOverlaySize_def)

text \<open>
  What \<open>addTextElement\<close> paints, and what \<open>finishTextEdit\<close> does with pending text
  that is not blank.
\<close>

lemma foldl_paint_lines:
  "foldl (\<lambda>c (i, line). c\<lparr>pixels := fillText R colour px font line x (y + of_nat i * px * (6 / 5)) c\<rparr>)
      c (enumerate n ls)
   = paint_lines R colour px font x y n ls c"
  by (induction ls arbitrary: n c) simp_all

lemma addTextElement_paints:
  "editCanvas (addTextElement R t x y s) =
     paint_lines R (textColor s) (textSize s) (textFont s) (of_int x) (of_int y) 0
       (split_lines t) (editCanvas s)"
  unfolding addTextElement_def foldl_paint_lines by simp

lemma split_lines_nonempty: "split_lines t \<noteq> []"
  by (induction t) (auto split: list.splits)

lemma split_lines_no_feed: "list_all (\<lambda>l. 0xA \<notin> set l) (split_lines t)"
  by (induction t) (auto split: list.splits)

lemma join_lines_Cons: "join_lines ((c # l) # ls) = c # join_lines (l # ls)"
  by (cases ls) simp_all

lemma join_split_lines: "join_lines (split_lines t) = t"
proof (induction t)
  case Nil
  show ?case by simp
next
  case (Cons c cs)
  obtain l ls where ls: "split_lines cs = l # ls"
    using split_lines_nonempty [of cs] by (cases "split_lines cs") auto
  show ?case
  proof (cases "c = 0xA")
    case True
    then show ?thesis using Cons.IH ls by simp
  next
    case False
    then show ?thesis using Cons.IH ls by (simp add: join_lines_Cons)
  qed
qed

lemma parseInt_decimal:
  assumes "q = 0 \<or> (1 / 1000000 \<le> \<bar>q\<bar> \<and> \<bar>q\<bar> < 1000000000000000000000)"
  shows "parseInt q = (if q < 0 then \<lceil>q\<rceil> else \<lfloor>q\<rfloor>)"
  using assms by (auto simp: parseInt_def Let_def ceiling_def)

lemma leading_digit_small_reads:
  "0 < r \<Longrightarrow> r < 10 \<Longrightarrow>
     \<exists>k. 1 \<le> r * 10 ^ k \<and> r * 10 ^ k < 10 \<and> leading_digit_small r = \<lfloor>r * 10 ^ k\<rfloor>"
proof (induction r rule: leading_digit_small.induct)
  case (1 r)
  show ?case
  proof (cases "1 \<le> r")
    case True
    then have "leading_digit_small r = \<lfloor>r\<rfloor>"
      by (simp add: leading_digit_small.simps [of r])
    with True 1(3) have "1 \<le> r * 10 ^ 0 \<and> r * 10 ^ 0 < 10 \<and> leading_digit_small r = \<lfloor>r * 10 ^ 0\<rfloor>"
      by simp
    then show ?thesis by (rule exI)
  next
    case False
    with 1(2) have c: "\<not> (r \<le> 0 \<or> 1 \<le> r)" by simp
    have "0 < r * 10" "r * 10 < 10" using 1(2) False by simp_all
    with 1(1) [OF c] obtain k where k: "1 \<le> r * 10 * 10 ^ k" "r * 10 * 10 ^ k < 10"
      "leading_digit_small (r * 10) = \<lfloor>r * 10 * 10 ^ k\<rfloor>"
      by blast
    have e: "leading_digit_small r = leading_digit_small (r * 10)"
      using c by (simp add: leading_digit_small.simps [of r])
    have p: "r * 10 * 10 ^ k = r * 10 ^ Suc k" by simp
    from k e have "1 \<le> r * 10 ^ Suc k \<and> r * 10 ^ Suc k < 10
        \<and> leading_digit_small r = \<lfloor>r * 10 ^ Suc k\<rfloor>"
      unfolding p by simp
    then show ?thesis by (rule exI)
  qed
qed

lemma leading_digit_large_reads:
  "1 \<le> r \<Longrightarrow>
     \<exists>k. 1 \<le> r / 10 ^ k \<and> r / 10 ^ k < 10 \<and> leading_digit_large r = \<lfloor>r / 10 ^ k\<rfloor>"
proof (induction r rule: leading_digit_large.induct)
  case (1 r)
  show ?case
  proof (cases "r < 10")
    case True
    then have "leading_digit_large r = \<lfloor>r\<rfloor>"
      by (simp add: leading_digit_large.simps [of r])
    with True 1(2) have "1 \<le> r / 10 ^ 0 \<and> r / 10 ^ 0 < 10 \<and> leading_digit_large r = \<lfloor>r / 10 ^ 0\<rfloor>"
      by simp
    then show ?thesis by (rule exI)
  next
    case False
    then have "1 \<le> r / 10" by simp
    with 1(1) [OF False] obtain k where k: "1 \<le> r / 10 / 10 ^ k" "r / 10 / 10 ^ k < 10"
      "leading_digit_large (r / 10) = \<lfloor>r / 10 / 10 ^ k\<rfloor>"
      by blast
    have e: "leading_digit_large r = leading_digit_large (r / 10)"
      using False by (simp add: leading_digit_large.simps [of r])
    have p: "r / 10 / 10 ^ k = r / 10 ^ Suc k" by simp
    from k e have "1 \<le> r / 10 ^ Suc k \<and> r / 10 ^ Suc k < 10
        \<and> leading_digit_large r = \<lfloor>r / 10 ^ Suc k\<rfloor>"
      unfolding p by simp
    then show ?thesis by (rule exI)
  qed
qed

lemma parseInt_exponent_small:
  assumes "q \<noteq> 0" "\<bar>q\<bar> < 1 / 1000000"
  shows "\<exists>k. 1 \<le> \<bar>q\<bar> * 10 ^ k \<and> \<bar>q\<bar> * 10 ^ k < 10
           \<and> parseInt q = (if q < 0 then - \<lfloor>\<bar>q\<bar> * 10 ^ k\<rfloor> else \<lfloor>\<bar>q\<bar> * 10 ^ k\<rfloor>)"
proof -
  from assms have "0 < \<bar>q\<bar>" "\<bar>q\<bar> < 10" by simp_all
  from leading_digit_small_reads [OF this] obtain k where
    k: "1 \<le> \<bar>q\<bar> * 10 ^ k" "\<bar>q\<bar> * 10 ^ k < 10" "leading_digit_small \<bar>q\<bar> = \<lfloor>\<bar>q\<bar> * 10 ^ k\<rfloor>"
    by blast
  have n: "\<bar>q\<bar> \<noteq> 0" using assms(1) by simp
  have "parseInt q = (if q < 0 then - leading_digit_small \<bar>q\<bar> else leading_digit_small \<bar>q\<bar>)"
    unfolding parseInt_def Let_def using n assms(2) by (simp only: if_False if_True)
  with k show ?thesis by auto
qed

lemma parseInt_exponent_large:
  assumes "1000000000000000000000 \<le> \<bar>q\<bar>"
  shows "\<exists>k. 1 \<le> \<bar>q\<bar> / 10 ^ k \<and> \<bar>q\<bar> / 10 ^ k < 10
           \<and> parseInt q = (if q < 0 then - \<lfloor>\<bar>q\<bar> / 10 ^ k\<rfloor> else \<lfloor>\<bar>q\<bar> / 10 ^ k\<rfloor>)"
proof -
  from assms have "1 \<le> \<bar>q\<bar>" by simp
  from leading_digit_large_reads [OF this] obtain k where
    k: "1 \<le> \<bar>q\<bar> / 10 ^ k" "\<bar>q\<bar> / 10 ^ k < 10" "leading_digit_large \<bar>q\<bar> = \<lfloor>\<bar>q\<bar> / 10 ^ k\<rfloor>"
    by blast
  have n: "\<bar>q\<bar> \<noteq> 0" "\<not> \<bar>q\<bar> < 1 / 1000000" using assms by linarith+
  have "parseInt q = (if q < 0 then - leading_digit_large \<bar>q\<bar> else leading_digit_large \<bar>q\<bar>)"
    unfolding parseInt_def Let_def using n assms by (simp only: if_False if_True)
  with k show ?thesis by auto
qed

lemma parseInt_examples:
  "parseInt (3 / 2) = 1 \<and> parseInt (- 3 / 2) = - 1 \<and> parseInt (1 / 10000000) = 1
   \<and> parseInt (- 25 / 1000000000) = - 2 \<and> parseInt 1500000000000000000000 = 1
   \<and> parseInt (1 / 1000000) = 0"
  by code_simp

lemma finishTextEdit_commit:
  assumes "editingText s" "trim (textContent s) \<noteq> []" "nonempty (editCanvas s)"
  obtains s1 where "finishTextEdit R s = Inr s1"
    and "editCanvas s1 =
           paint_lines R (textColor s) (textSize s) (textFont s)
             (of_int (parseInt (editorLeft s))) (of_int (parseInt (editorTop s))) 0
             (split_lines (textContent s)) (editCanvas s)"
    and "editHistory s1 =
           (let h = slice0 (editHistory s) (historyIndex s + 1) @ [editCanvas s1]
            in if length h > maxHistorySize then tl h else h)"
    and "historyIndex s1 =
           (let h = slice0 (editHistory s) (historyIndex s + 1) @ [editCanvas s1]
            in if length h > maxHistorySize then historyIndex s else historyIndex s + 1)"
    and "emitted s1 = emitted s @ [StateChanged (canUndo s1) (canRedo s1)]"
    and "\<not> editingText s1" and "textContent s1 = []"
    and "currentTool s1 = currentTool s"
proof -
  let ?a = "addTextElement R (textContent s) (parseInt (editorLeft s)) (parseInt (editorTop s)) s"
  let ?t = "cancelTextEdit ?a"
  have f: "finishTextEdit R s = saveState ?t"
    using assms(1,2) by (simp add: finishTextEdit_def Let_def)
  have "nonempty (editCanvas ?t)"
    using assms(3) by (simp add: nonempty_def addTextElement_size)
  then obtain s1 where s1: "saveState ?t = Inr s1"
    "editHistory s1 = (if length (pushed ?t) > maxHistorySize then tl (pushed ?t) else pushed ?t)"
    "historyIndex s1 = (if length (pushed ?t) > maxHistorySize then historyIndex ?t else historyIndex ?t + 1)"
    "editCanvas s1 = editCanvas ?t"
    "emitted s1 = emitted ?t @ [StateChanged (canUndo s1) (canRedo s1)]"
    "editingText s1 = editingText ?t" "textContent s1 = textContent ?t"
    "currentTool s1 = currentTool ?t"
    by (rule saveState_nonempty)
  have p: "pushed ?t = slice0 (editHistory s) (historyIndex s + 1) @ [editCanvas ?a]"
    by (simp add: pushed_def)
  have c: "editCanvas ?a =
      paint_lines R (textColor s) (textSize s) (textFont s)
        (of_int (parseInt (editorLeft s))) (of_int (parseInt (editorTop s))) 0
        (split_lines (textContent s)) (editCanvas s)"
    by (rule addTextElement_paints)
  show thesis
  proof (rule that [of s1])
    show "finishTextEdit R s = Inr s1" using f s1(1) by simp
    show "editCanvas s1 =
           paint_lines R (textColor s) (textSize s) (textFont s)
             (of_int (parseInt (editorLeft s))) (of_int (parseInt (editorTop s))) 0
             (split_lines (textContent s)) (editCanvas s)"
      using s1(4) c by simp
    show "editHistory s1 =
           (let h = slice0 (editHistory s) (historyIndex s + 1) @ [editCanvas s1]
            in if length h > maxHistorySize then tl h else h)"
      using s1(2,4) p by (simp add: Let_def)
    show "historyIndex s1 =
           (let h = slice0 (editHistory s) (historyIndex s + 1) @ [editCanvas s1]
            in if length h > maxHistorySize then historyIndex s else historyIndex s + 1)"
      using s1(3,4) p by (simp add: Let_def)
    show "emitted s1 = emitted s @ [StateChanged (canUndo s1) (canRedo s1)]"
      using s1(5) by simp
    show "\<not> editingText s1" using s1(6) by simp
    show "textContent s1 = []" using s1(7) by simp
    show "currentTool s1 = currentTool s" using s1(8) by simp
  qed
qed

subsection \<open>The history stays in order\<close>

text \<open>
  The constructor leaves the history in order, and every method that returns keeps it so.
\<close>

lemma history_ok_new: "history_ok (PDFEditor_new page)"
  by (simp add: history_ok_def PDFEditor_new_def)

lemma saveState_keeps:
  assumes "history_ok s" "saveState s = Inr s'"
  shows "history_ok s'"
proof (cases "nonempty (editCanvas s)")
  case True
  with assms(1) obtain t where "saveState s = Inr t" "history_ok t"
    by (rule saveState_ok)
  with assms(2) show ?thesis by simp
next
  case False
  with assms(2) show ?thesis by (simp add: saveState_empty)
qed

lemma undo_keeps:
  assumes "history_ok s" "undo s = Inr s'"
  shows "history_ok s'"
  using assms
  by (auto simp: undo_def canUndo_def Let_def restoreState_def and_then_def history_ok_def
      split: if_splits option.splits)

lemma redo_keeps:
  assumes "history_ok s" "redo s = Inr s'"
  shows "history_ok s'"
  using assms
  by (auto simp: redo_def canRedo_def Let_def restoreState_def and_then_def history_ok_def
      split: if_splits option.splits)

lemma finishTextEdit_keeps:
  assumes "history_ok s" "finishTextEdit R s = Inr s'"
  shows "history_ok s'"
proof (cases "\<not> editingText s \<or> trim (textContent s) = []")
  case True
  then have "finishTextEdit R s = Inr (cancelTextEdit s)" by (rule finishTextEdit_cancel)
  with assms(2) have "s' = cancelTextEdit s" by simp
  with assms(1) show ?thesis by (simp add: history_ok_def)
next
  case False
  let ?t = "cancelTextEdit (addTextElement R (textContent s) (parseInt (editorLeft s))
      (parseInt (editorTop s)) s)"
  have "finishTextEdit R s = saveState ?t"
    using False by (simp add: finishTextEdit_def Let_def)
  moreover have "history_ok ?t" using assms(1) by (simp add: history_ok_def)
  ultimately show ?thesis using assms(2) by (simp add: saveState_keeps)
qed

lemma startTextEdit_keeps:
  assumes "history_ok s" "startTextEdit R x y s = Inr s'"
  shows "history_ok s'"
proof (cases "finishTextEdit R s")
  case (Inl e)
  with assms(2) show ?thesis by (simp add: startTextEdit_def)
next
  case (Inr s1)
  with assms(1) have "history_ok s1" by (rule finishTextEdit_keeps)
  with assms(2) Inr show ?thesis by (auto simp: startTextEdit_def history_ok_def)
qed

lemma setTool_keeps:
  assumes "history_ok s" "setTool R tool s = Inr s'"
  shows "history_ok s'"
proof (cases "finishTextEdit R (s\<lparr>currentTool := tool\<rparr>)")
  case (Inl e)
  with assms(2) show ?thesis by (simp add: setTool_def)
next
  case (Inr s1)
  moreover have "history_ok (s\<lparr>currentTool := tool\<rparr>)"
    using assms(1) by (simp add: history_ok_def)
  ultimately have "history_ok s1" by (rule finishTextEdit_keeps [rotated])
  with assms(2) Inr show ?thesis
    by (auto simp: setTool_def Let_def clearSelection_def history_ok_def)
qed

lemma disableEditMode_keeps:
  assumes "history_ok s" "disableEditMode R s = Inr s'"
  shows "history_ok s'"
proof (cases "finishTextEdit R (s\<lparr>isEditMode := False, pointerEvents := ''none''\<rparr>)")
  case (Inl e)
  with assms(2) show ?thesis by (simp add: disableEditMode_def)
next
  case (Inr s1)
  moreover have "history_ok (s\<lparr>isEditMode := False, pointerEvents := ''none''\<rparr>)"
    using assms(1) by (simp add: history_ok_def)
  ultimately have "history_ok s1" by (rule finishTextEdit_keeps [rotated])
  with assms(2) Inr show ?thesis
    by (auto simp: disableEditMode_def clearSelection_def history_ok_def)
qed

lemma enableEditMode_keeps: "history_ok (enableEditMode s) = history_ok s"
  by (simp add: enableEditMode_def history_ok_def)

lemma clearAllEdits_keeps:
  assumes "clearAllEdits s = Inr s'"
  shows "history_ok s'"
proof -
  have "history_ok (s\<lparr>editCanvas := clearRect (editCanvas s), editHistory := [],
      historyIndex := - 1\<rparr>)"
    by (simp add: history_ok_def)
  with assms show ?thesis unfolding clearAllEdits_def by (rule saveState_keeps [rotated])
qed

lemma syncOverlaySize_keeps: "history_ok (syncOverlaySize rd s) = history_ok s"
  by (simp add: syncOverlaySize_def history_ok_def split: option.splits)

lemma startHighlight_keeps:
  assumes "history_ok s" "startHighlight R x y s = Inr s'"
  shows "history_ok s'"
proof -
  have "history_ok (s\<lparr>editCanvas :=
            (editCanvas s)\<lparr>pixels :=
               fillRect R (fillColor s) (3 / 10) (x - 50) (y - 5) 100 20 (editCanvas s)\<rparr>\<rparr>)"
    using assms(1) by (simp add: history_ok_def)
  with assms(2) show ?thesis unfolding startHighlight_def by (rule saveState_keeps [rotated])
qed

lemma handleEditMouseDown_keeps:
  assumes "history_ok s" "handleEditMouseDown R x y s = Inr s'"
  shows "history_ok s'"
proof -
  consider "handleEditMouseDown R x y s = Inr s"
    | "handleEditMouseDown R x y s = startTextEdit R x y s"
    | "handleEditMouseDown R x y s = Inr (startDrawing x y s)"
    | "handleEditMouseDown R x y s = startHighlight R x y s"
    | "handleEditMouseDown R x y s = Inr (selectElement x y s)"
    by (cases "isEditMode s"; cases "currentTool s = ''text''"; cases "currentTool s = ''draw''";
        cases "currentTool s = ''highlight''"; cases "currentTool s = ''select''")
      (simp_all add: handleEditMouseDown_def)
  then show ?thesis
  proof cases
    case 1
    with assms(2) have "s' = s" by simp
    with assms(1) show ?thesis by simp
  next
    case 2
    with assms(2) have "startTextEdit R x y s = Inr s'" by simp
    with assms(1) show ?thesis by (rule startTextEdit_keeps)
  next
    case 3
    with assms(2) have "s' = startDrawing x y s" by simp
    with assms(1) show ?thesis by (simp add: startDrawing_def history_ok_def)
  next
    case 4
    with assms(2) have "startHighlight R x y s = Inr s'" by simp
    with assms(1) show ?thesis by (rule startHighlight_keeps)
  next
    case 5
    with assms(2) have "s' = selectElement x y s" by simp
    with assms(1) show ?thesis
      by (simp add: selectElement_def clearSelection_def history_ok_def)
  qed
qed

subsection \<open>Capacity of the history\<close>

text \<open>
  C2. Capacity bound and eviction order. Take an editor whose history is in order and any
  non-empty sequence of captures, the canvas holding the bitmaps \<open>bs\<close> in turn. The
  calls return, and afterwards the history is the last \<open>maxHistorySize\<close> (50)
  elements of the entries up to the index followed by the new snapshots: it never holds
  more than 50 entries, what is dropped is dropped from the front, oldest first, and the
  index addresses the snapshot appended last.
\<close>

theorem capture_capacity_eviction:
  assumes "history_ok s" "list_all nonempty bs" "bs \<noteq> []"
  shows "\<exists>s'. captures bs s = Inr s'
           \<and> editHistory s' =
               most_recent maxHistorySize (slice0 (editHistory s) (historyIndex s + 1) @ bs)
           \<and> length (editHistory s') \<le> maxHistorySize
           \<and> historyIndex s' = int (length (editHistory s')) - 1
           \<and> index (editHistory s') (historyIndex s') = Some (last bs)"
proof -
  from assms(3) obtain b bs' where bs: "bs = b # bs'" by (cases bs) auto
  let ?t = "s\<lparr>editCanvas := b\<rparr>"
  have ok: "history_ok ?t" using assms(1) by (simp add: history_ok_def)
  have ne: "nonempty (editCanvas ?t)" using assms(2) bs by simp
  from ok ne obtain s1 where s1: "saveState ?t = Inr s1"
    "editHistory s1 = most_recent maxHistorySize (pushed ?t)"
    "historyIndex s1 = int (length (editHistory s1)) - 1" "history_ok s1"
    by (rule saveState_ok)
  have p: "pushed ?t = slice0 (editHistory s) (historyIndex s + 1) @ [b]"
    by (simp add: pushed_def)
  from assms(2) bs have "list_all nonempty bs'" by simp
  with captures_at_end [OF s1(4) s1(3)] obtain s' where s': "captures bs' s1 = Inr s'"
    "editHistory s' = most_recent maxHistorySize (editHistory s1 @ bs')"
    "historyIndex s' = int (length (editHistory s')) - 1" "history_ok s'"
    by blast
  have h: "editHistory s' =
      most_recent maxHistorySize (slice0 (editHistory s) (historyIndex s + 1) @ bs)"
    using s'(2) s1(2) p bs by (simp add: most_recent_append)
  have len: "length (editHistory s') \<le> maxHistorySize"
    using s'(4) by (simp add: history_ok_def)
  have pos: "editHistory s' \<noteq> []"
    using h assms(3) most_recent_last(1) [of maxHistorySize "slice0 (editHistory s) (historyIndex s + 1) @ bs"]
    by (simp add: maxHistorySize_def)
  have "last (editHistory s') = last bs"
    using h assms(3) most_recent_last(2) [of maxHistorySize "slice0 (editHistory s) (historyIndex s + 1) @ bs"]
    by (simp add: maxHistorySize_def)
  then have "index (editHistory s') (historyIndex s') = Some (last bs)"
    using s'(3) pos by (simp add: index_def last_conv_nth nat_diff_distrib')
  with s1(1) s'(1,3) h len bs show ?thesis by simp
qed

theorem capture_capacity_eviction_witness:
  "history_ok (PDFEditor_new (blank 1 1))
   \<and> list_all nonempty (map (\<lambda>k. \<lparr>width = 1, height = 1, pixels = [(of_nat k, 0, 0, 255)]\<rparr>) [1 ..< 53])
   \<and> (\<exists>s'. captures (map (\<lambda>k. \<lparr>width = 1, height = 1, pixels = [(of_nat k, 0, 0, 255)]\<rparr>) [1 ..< 53])
               (PDFEditor_new (blank 1 1)) = Inr s'
          \<and> editHistory s' =
                map (\<lambda>k. \<lparr>width = 1, height = 1, pixels = [(of_nat k, 0, 0, 255)]\<rparr>) [3 ..< 53]
          \<and> length (editHistory s') = 50
          \<and> historyIndex s' = 49)"
proof -
  let ?f = "\<lambda>k::nat. \<lparr>width = 1, height = 1, pixels = [(of_nat k, 0, 0, 255) :: pixel]\<rparr>"
  let ?s = "PDFEditor_new (blank 1 1)"
  have ok: "history_ok ?s"
    by (simp add: history_ok_def PDFEditor_new_def)
  have ne: "list_all nonempty (map ?f [1 ..< 53])"
    by (simp add: list_all_iff nonempty_def)
  have nn: "map ?f [1 ..< 53] \<noteq> []"
    by simp
  have sl: "slice0 (editHistory ?s) (historyIndex ?s + 1) = []"
    by (simp add: PDFEditor_new_def slice0_def)
  have "length (map ?f [1 ..< 53]) - maxHistorySize = 2"
    by (simp only: length_map length_upt maxHistorySize_def)
  then have "most_recent maxHistorySize (map ?f [1 ..< 53]) = map ?f (drop 2 [1 ..< 53])"
    by (simp only: most_recent_def drop_map)
  moreover have "(1::nat) + 2 = 3"
    by simp
  then have "drop 2 [1 ..< 53] = [3 ..< 53::nat]"
    by (simp only: drop_upt)
  ultimately have mr: "most_recent maxHistorySize (map ?f [1 ..< 53]) = map ?f [3 ..< 53]"
    by (simp only:)
  from capture_capacity_eviction [OF ok ne nn] obtain s' where
    "captures (map ?f [1 ..< 53]) ?s = Inr s'"
    "editHistory s' = map ?f [3 ..< 53]"
    "historyIndex s' = int (length (editHistory s')) - 1"
    unfolding sl using mr by auto
  then show ?thesis using ok ne by auto
qed

subsection \<open>Undo and redo\<close>

text \<open>
  C3. Snapshot round trip. When undo is enabled and the canvas holds what the entry at the
  index holds, \<open>undo\<close> followed by \<open>redo\<close> returns and leaves the canvas
  pixel for pixel as it was, with the index and the history unchanged.
\<close>

theorem undo_redo_roundtrip:
  assumes "canUndo s" "index (editHistory s) (historyIndex s) = Some (editCanvas s)"
    "wf_bitmap (editCanvas s)"
  shows "\<exists>s1 s2. undo s = Inr s1 \<and> redo s1 = Inr s2
           \<and> editCanvas s2 = editCanvas s
           \<and> historyIndex s2 = historyIndex s \<and> editHistory s2 = editHistory s"
proof -
  let ?h = "editHistory s" and ?i = "historyIndex s"
  from assms(1) have pos: "0 < ?i" by (simp add: canUndo_def)
  from assms(2) have rng: "?i < int (length ?h)" and cur: "?h ! nat ?i = editCanvas s"
    by (auto simp: index_def split: if_splits)
  define prev where "prev = ?h ! nat (?i - 1)"
  have ip: "index ?h (?i - 1) = Some prev"
    using pos rng by (simp add: index_def prev_def)
  define s1 where "s1 = emit (StateChanged (0 < ?i - 1) True)
      (s\<lparr>historyIndex := ?i - 1, editCanvas := putImageData prev (editCanvas s)\<rparr>)"
  have u: "undo s = Inr s1"
    using assms(1) ip rng
    by (simp add: undo_def Let_def restoreState_def s1_def canUndo_def canRedo_def)
  have s1f: "historyIndex s1 = ?i - 1" "editHistory s1 = ?h"
    "editCanvas s1 = putImageData prev (editCanvas s)"
    by (simp_all add: s1_def)
  have cr: "canRedo s1" using rng s1f by (simp add: canRedo_def)
  define s2 where "s2 = emit (StateChanged True (?i < int (length ?h) - 1))
      (s1\<lparr>historyIndex := ?i, editCanvas := putImageData (editCanvas s) (editCanvas s1)\<rparr>)"
  have r: "redo s1 = Inr s2"
    using cr assms(2) s1f pos
    by (simp add: redo_def Let_def restoreState_def s2_def canUndo_def canRedo_def)
  have "pixels (putImageData (editCanvas s) (editCanvas s1)) = pixels (editCanvas s)"
    using assms(3) s1f(3) by (simp add: putImageData_same_size)
  then have "putImageData (editCanvas s) (editCanvas s1) = editCanvas s"
    using s1f(3) by (intro bitmap.equality) (simp_all add: putImageData_def)
  then have "editCanvas s2 = editCanvas s" "historyIndex s2 = ?i" "editHistory s2 = ?h"
    using s1f by (simp_all add: s2_def)
  with u r show ?thesis by blast
qed

theorem undo_redo_roundtrip_witness:
  "canUndo ((PDFEditor_new (blank 1 1))
       \<lparr>editHistory := [blank 1 1, \<lparr>width = 1, height = 1, pixels = [(0, 0, 0, 255)]\<rparr>],
        historyIndex := 1,
        editCanvas := \<lparr>width = 1, height = 1, pixels = [(0, 0, 0, 255)]\<rparr>\<rparr>)
   \<and> (\<exists>s1 s2.
         undo ((PDFEditor_new (blank 1 1))
           \<lparr>editHistory := [blank 1 1, \<lparr>width = 1, height = 1, pixels = [(0, 0, 0, 255)]\<rparr>],
            historyIndex := 1,
            editCanvas := \<lparr>width = 1, height = 1, pixels = [(0, 0, 0, 255)]\<rparr>\<rparr>) = Inr s1
         \<and> redo s1 = Inr s2
         \<and> editCanvas s2 = \<lparr>width = 1, height = 1, pixels = [(0, 0, 0, 255)]\<rparr>
         \<and> historyIndex s2 = 1)"
proof -
  let ?b = "\<lparr>width = 1, height = 1, pixels = [(0, 0, 0, 255) :: pixel]\<rparr>"
  let ?s = "(PDFEditor_new (blank 1 1))
       \<lparr>editHistory := [blank 1 1, ?b], historyIndex := 1, editCanvas := ?b\<rparr>"
  have a: "canUndo ?s" by (simp add: canUndo_def)
  have b: "index (editHistory ?s) (historyIndex ?s) = Some (editCanvas ?s)"
    by (simp add: index_def)
  have c: "wf_bitmap (editCanvas ?s)" by (simp add: wf_bitmap_def)
  from undo_redo_roundtrip [OF a b c] obtain s1 s2 where
    r: "undo ?s = Inr s1" "redo s1 = Inr s2"
    and e: "editCanvas s2 = editCanvas ?s" "historyIndex s2 = historyIndex ?s"
    by blast
  from e have "editCanvas s2 = ?b" "historyIndex s2 = 1" by simp_all
  with a r show ?thesis by blast
qed

subsection \<open>Truncation of the redo branch\<close>

text \<open>
  C1, as the code has it. Starting from an empty history, after \<open>saveState\<close>,
  \<open>saveState\<close>, \<open>undo\<close>, \<open>saveState\<close> the call \<open>canRedo\<close> returns false and the
  history contains exactly 2 entries: the first snapshot and the one taken after the
  undo. The entry that the undo left redoable is gone. With the canvas painted anew
  before each capture, holding \<open>c1\<close>, then \<open>c2\<close>, then \<open>c3\<close>, the history ends as
  \<open>[c1, c3]\<close>. With nothing painted in between, it ends as the first snapshot followed
  by the snapshot of the canvas on which the undo has put the first one back. The
  canvases hold pixels; a capture of a canvas without pixels raises.
\<close>

theorem branch_truncation:
  assumes "editHistory s = []" "historyIndex s = - 1"
  shows "(nonempty c1 \<and> nonempty c2 \<and> nonempty c3 \<longrightarrow>
          (\<exists>s'. run [repaint c1, saveState, repaint c2, saveState, undo,
                      repaint c3, saveState] s = Inr s'
             \<and> editHistory s' = [c1, c3] \<and> length (editHistory s') = 2
             \<and> historyIndex s' = 1 \<and> \<not> canRedo s'))
       \<and> (nonempty (editCanvas s) \<longrightarrow>
          (\<exists>s'. run [saveState, saveState, undo, saveState] s = Inr s'
             \<and> editHistory s' =
                 [editCanvas s, putImageData (editCanvas s) (editCanvas s)]
             \<and> length (editHistory s') = 2
             \<and> historyIndex s' = 1 \<and> \<not> canRedo s'))"
proof -
  have general: "\<exists>s'. run [repaint b1, saveState, repaint b2, saveState, undo,
                      repaint b3, saveState] s = Inr s'
             \<and> editHistory s' = [b1, b3] \<and> length (editHistory s') = 2
             \<and> historyIndex s' = 1 \<and> \<not> canRedo s'"
    if ne: "nonempty b1" "nonempty b2" "nonempty b3" for b1 b2 b3
  proof -
    let ?t1 = "s\<lparr>editCanvas := b1\<rparr>"
    have p1: "pushed ?t1 = [b1]"
      using assms by (simp add: pushed_def slice0_def)
    from ne(1) have "nonempty (editCanvas ?t1)" by simp
    then obtain s1 where s1: "saveState ?t1 = Inr s1"
      "editHistory s1 = [b1]" "historyIndex s1 = 0"
      by (rule saveState_nonempty) (simp add: p1 assms(2) maxHistorySize_def)
    let ?t2 = "s1\<lparr>editCanvas := b2\<rparr>"
    have p2: "pushed ?t2 = [b1, b2]"
      using s1 by (simp add: pushed_def slice0_def)
    from ne(2) have "nonempty (editCanvas ?t2)" by simp
    then obtain s2 where s2: "saveState ?t2 = Inr s2"
      "editHistory s2 = [b1, b2]" "historyIndex s2 = 1" "editCanvas s2 = editCanvas ?t2"
      by (rule saveState_nonempty) (simp add: p2 s1 maxHistorySize_def)
    define s3 where "s3 = emit (StateChanged False True)
        (s2\<lparr>historyIndex := 0, editCanvas := putImageData b1 b2\<rparr>)"
    have u: "undo s2 = Inr s3"
      using s2 by (simp add: undo_def Let_def restoreState_def index_def canUndo_def
          canRedo_def s3_def)
    let ?t3 = "s3\<lparr>editCanvas := b3\<rparr>"
    have s3f: "editHistory s3 = [b1, b2]" "historyIndex s3 = 0"
      using s2 by (simp_all add: s3_def)
    have p3: "pushed ?t3 = [b1, b3]"
      using s3f by (simp add: pushed_def slice0_def)
    from ne(3) have "nonempty (editCanvas ?t3)" by simp
    then obtain s4 where s4: "saveState ?t3 = Inr s4"
      "editHistory s4 = [b1, b3]" "historyIndex s4 = 1"
      by (rule saveState_nonempty) (simp add: p3 s3f maxHistorySize_def)
    have "run [repaint b1, saveState, repaint b2, saveState, undo, repaint b3, saveState] s
        = Inr s4"
      using s1(1) s2(1) u s4(1) by (simp add: repaint_def)
    moreover have "\<not> canRedo s4" "length (editHistory s4) = 2"
      using s4 by (simp_all add: canRedo_def)
    ultimately show ?thesis using s4(2,3) by blast
  qed
  have literal: "\<exists>s'. run [saveState, saveState, undo, saveState] s = Inr s'
             \<and> editHistory s' =
                 [editCanvas s, putImageData (editCanvas s) (editCanvas s)]
             \<and> length (editHistory s') = 2
             \<and> historyIndex s' = 1 \<and> \<not> canRedo s'"
    if ne: "nonempty (editCanvas s)"
  proof -
    let ?c = "editCanvas s"
    from two_captures [OF assms ne] obtain s2 where s2: "run [saveState, saveState] s = Inr s2"
      "editHistory s2 = [?c, ?c]" "historyIndex s2 = 1" "editCanvas s2 = ?c"
      by blast
    define s3 where "s3 = emit (StateChanged False True)
        (s2\<lparr>historyIndex := 0, editCanvas := putImageData ?c ?c\<rparr>)"
    have u: "undo s2 = Inr s3"
      using s2 by (simp add: undo_def Let_def restoreState_def index_def canUndo_def
          canRedo_def s3_def)
    have s3f: "editHistory s3 = [?c, ?c]" "historyIndex s3 = 0"
      "editCanvas s3 = putImageData ?c ?c" "nonempty (editCanvas s3)"
      using s2 ne by (simp_all add: s3_def nonempty_def)
    have p3: "pushed s3 = [?c, putImageData ?c ?c]"
      using s3f by (simp add: pushed_def slice0_def)
    from s3f(4) obtain s4 where s4: "saveState s3 = Inr s4"
      "editHistory s4 = [?c, putImageData ?c ?c]" "historyIndex s4 = 1"
      by (rule saveState_nonempty) (simp add: p3 s3f maxHistorySize_def)
    have "run [saveState, saveState, undo, saveState] s =
        and_then (run [saveState, saveState] s) (run [undo, saveState])"
      using run_append [of "[saveState, saveState]" "[undo, saveState]" s] by simp
    then have "run [saveState, saveState, undo, saveState] s = Inr s4"
      using s2(1) u s4(1) by simp
    moreover have "\<not> canRedo s4" "length (editHistory s4) = 2"
      using s4 by (simp_all add: canRedo_def)
    ultimately show ?thesis using s4(2,3) by blast
  qed
  from general [of c1 c2 c3] literal show ?thesis by blast
qed

theorem branch_truncation_witness:
  "editHistory (PDFEditor_new (blank 1 1)) = []
   \<and> historyIndex (PDFEditor_new (blank 1 1)) = - 1
   \<and> (\<exists>s'. run [repaint \<lparr>width = 1, height = 1, pixels = [(1, 0, 0, 255)]\<rparr>, saveState,
               repaint \<lparr>width = 1, height = 1, pixels = [(2, 0, 0, 255)]\<rparr>, saveState,
               undo,
               repaint \<lparr>width = 1, height = 1, pixels = [(3, 0, 0, 255)]\<rparr>, saveState]
          (PDFEditor_new (blank 1 1)) = Inr s'
        \<and> editHistory s' = [\<lparr>width = 1, height = 1, pixels = [(1, 0, 0, 255)]\<rparr>,
                             \<lparr>width = 1, height = 1, pixels = [(3, 0, 0, 255)]\<rparr>]
        \<and> length (editHistory s') = 2 \<and> historyIndex s' = 1 \<and> \<not> canRedo s')
   \<and> (\<exists>s'. run [saveState, saveState, undo, saveState]
          ((PDFEditor_new (blank 1 1))
           \<lparr>editCanvas := \<lparr>width = 1, height = 1, pixels = [(1, 0, 0, 255)]\<rparr>\<rparr>) = Inr s'
        \<and> editHistory s' = [\<lparr>width = 1, height = 1, pixels = [(1, 0, 0, 255)]\<rparr>,
                             \<lparr>width = 1, height = 1, pixels = [(1, 0, 0, 255)]\<rparr>]
        \<and> historyIndex s' = 1 \<and> \<not> canRedo s')"
proof -
  let ?s = "PDFEditor_new (blank 1 1)"
  let ?b1 = "\<lparr>width = 1, height = 1, pixels = [(1, 0, 0, 255) :: pixel]\<rparr>"
  let ?b2 = "\<lparr>width = 1, height = 1, pixels = [(2, 0, 0, 255) :: pixel]\<rparr>"
  let ?b3 = "\<lparr>width = 1, height = 1, pixels = [(3, 0, 0, 255) :: pixel]\<rparr>"
  have h: "editHistory ?s = []" "historyIndex ?s = - 1"
    by (simp_all add: PDFEditor_new_def)
  have n: "nonempty ?b1 \<and> nonempty ?b2 \<and> nonempty ?b3"
    by (simp add: nonempty_def)
  from branch_truncation [OF h, of ?b1 ?b2 ?b3, THEN conjunct1] n
  have first: "\<exists>s'. run [repaint ?b1, saveState, repaint ?b2, saveState, undo,
               repaint ?b3, saveState] ?s = Inr s'
        \<and> editHistory s' = [?b1, ?b3]
        \<and> length (editHistory s') = 2 \<and> historyIndex s' = 1 \<and> \<not> canRedo s'"
    by blast
  let ?t = "?s\<lparr>editCanvas := ?b1\<rparr>"
  have ht: "editHistory ?t = []" "historyIndex ?t = - 1"
    by (simp_all add: PDFEditor_new_def)
  have nt: "nonempty (editCanvas ?t)" by (simp add: nonempty_def)
  have pt: "putImageData ?b1 ?b1 = ?b1"
    by (simp add: putImageData_def pixel_at_def)
  from branch_truncation [OF ht, THEN conjunct2] nt
  obtain s' where s': "run [saveState, saveState, undo, saveState] ?t = Inr s'"
    "editHistory s' = [editCanvas ?t, putImageData (editCanvas ?t) (editCanvas ?t)]"
    "historyIndex s' = 1" "\<not> canRedo s'"
    by blast
  from s'(2) have "editHistory s' = [?b1, ?b1]" using pt by simp
  with s'(1,3,4) have second: "\<exists>s'. run [saveState, saveState, undo, saveState] ?t = Inr s'
        \<and> editHistory s' = [?b1, ?b1] \<and> historyIndex s' = 1 \<and> \<not> canRedo s'"
    by blast
  from h first second show ?thesis by (intro conjI)
qed

text \<open>
  C1 as stated asks for 3 entries. From the state the constructor leaves, the four calls
  return with 2 entries in the history.
\<close>

theorem branch_truncation_counterexample:
  "map_sum id (length \<circ> editHistory)
     (run [saveState, saveState, undo, saveState] (PDFEditor_new (blank 300 150))) = Inr 2"
  by (simp add: saveState_def getImageData_def Let_def slice0_def maxHistorySize_def
      undo_def canUndo_def canRedo_def index_def restoreState_def PDFEditor_new_def)

subsection \<open>Geometry synchronisation\<close>

lemma engine_renderPage_syncs:
  assumes "engine s = Some e" "engine_renderPage page pageNumber s = Inr s'"
  shows "pageEverRendered s' \<and> pdfCanvas s' = Some page
       \<and> editCanvas s' = blank (width page) (height page)
       \<and> editHistory s' = editHistory s \<and> historyIndex s' = historyIndex s"
  using assms
  by (auto simp: engine_renderPage_def renderPage_def and_then_def syncOverlaySize_Some
      pageEverRendered_def is_PageRendered_def split: if_splits option.splits)

text \<open>
  C4, as the code has it. A page-rendered notification that carries the page canvas
  resets the overlay raster to a blank one of the new dimensions and leaves the history
  and its index as they were: \<open>canUndo\<close> and \<open>canRedo\<close> return afterwards what they
  returned before. After a single capture that is false, as the scenario of the
  specification observes. The same holds of the whole path from the engine that renders
  a page to the listener of the editor; a notification without a canvas changes nothing.
\<close>

theorem syncOverlaySize_keeps_history:
  "editCanvas (syncOverlaySize \<lparr>canvas = Some c\<rparr> s) = blank (width c) (height c)
   \<and> editHistory (syncOverlaySize \<lparr>canvas = Some c\<rparr> s) = editHistory s
   \<and> historyIndex (syncOverlaySize \<lparr>canvas = Some c\<rparr> s) = historyIndex s
   \<and> canUndo (syncOverlaySize \<lparr>canvas = Some c\<rparr> s) = canUndo s
   \<and> canRedo (syncOverlaySize \<lparr>canvas = Some c\<rparr> s) = canRedo s
   \<and> syncOverlaySize \<lparr>canvas = None\<rparr> s = s
   \<and> (engine s = Some e \<and> engine_renderPage page pageNumber s = Inr s' \<longrightarrow>
        editCanvas s' = blank (width page) (height page)
        \<and> editHistory s' = editHistory s \<and> historyIndex s' = historyIndex s
        \<and> canUndo s' = canUndo s \<and> canRedo s' = canRedo s)"
proof -
  have direct: "syncOverlaySize \<lparr>canvas = None\<rparr> s = s"
    by (simp add: syncOverlaySize_def)
  have rendered: "engine s = Some e \<and> engine_renderPage page pageNumber s = Inr s' \<longrightarrow>
        editCanvas s' = blank (width page) (height page)
        \<and> editHistory s' = editHistory s \<and> historyIndex s' = historyIndex s
        \<and> canUndo s' = canUndo s \<and> canRedo s' = canRedo s"
  proof
    assume "engine s = Some e \<and> engine_renderPage page pageNumber s = Inr s'"
    then have "editCanvas s' = blank (width page) (height page)"
      "editHistory s' = editHistory s" "historyIndex s' = historyIndex s"
      using engine_renderPage_syncs [of s e page pageNumber s'] by simp_all
    then show "editCanvas s' = blank (width page) (height page)
        \<and> editHistory s' = editHistory s \<and> historyIndex s' = historyIndex s
        \<and> canUndo s' = canUndo s \<and> canRedo s' = canRedo s"
      by (simp add: canUndo_def canRedo_def)
  qed
  show ?thesis
    using direct rendered by (simp add: syncOverlaySize_Some canUndo_def canRedo_def)
qed

theorem syncOverlaySize_keeps_history_witness:
  "\<exists>s1. saveState (PDFEditor_new (blank 1 1)) = Inr s1
      \<and> editCanvas (syncOverlaySize \<lparr>canvas = Some (blank 4 2)\<rparr> s1) = blank 4 2
      \<and> length (editHistory (syncOverlaySize \<lparr>canvas = Some (blank 4 2)\<rparr> s1)) = 1
      \<and> \<not> canUndo (syncOverlaySize \<lparr>canvas = Some (blank 4 2)\<rparr> s1)"
proof -
  let ?s = "PDFEditor_new (blank 1 1)"
  have "nonempty (editCanvas ?s)"
    by (simp add: PDFEditor_new_def nonempty_def)
  then obtain s1 where s1: "saveState ?s = Inr s1"
    "editHistory s1 = (if length (pushed ?s) > maxHistorySize then tl (pushed ?s) else pushed ?s)"
    "historyIndex s1 = (if length (pushed ?s) > maxHistorySize then historyIndex ?s else historyIndex ?s + 1)"
    by (rule saveState_nonempty)
  have p: "pushed ?s = [blank 300 150]"
    by (simp add: pushed_def slice0_def PDFEditor_new_def)
  have f: "length (editHistory s1) = 1" "\<not> canUndo s1"
    using s1(2,3) p by (simp_all add: maxHistorySize_def canUndo_def PDFEditor_new_def)
  from syncOverlaySize_keeps_history [where c = "blank 4 2" and s = s1] f s1(1)
  show ?thesis by simp
qed

text \<open>
  C4 as stated has the history cleared. After two captures the notification leaves both
  entries in place and \<open>canUndo\<close> still returns true.
\<close>

theorem syncOverlaySize_counterexample:
  "map_sum id (canUndo \<circ> syncOverlaySize \<lparr>canvas = Some (blank 4 2)\<rparr>)
     (run [saveState, saveState] (PDFEditor_new (blank 1 1))) = Inr True
   \<and> map_sum id (length \<circ> editHistory \<circ> syncOverlaySize \<lparr>canvas = Some (blank 4 2)\<rparr>)
     (run [saveState, saveState] (PDFEditor_new (blank 1 1))) = Inr 2"
  by (simp add: saveState_def getImageData_def Let_def slice0_def maxHistorySize_def
      canUndo_def canRedo_def PDFEditor_new_def syncOverlaySize_def)

subsection \<open>Clearing\<close>

text \<open>
  C5, as the code has it. \<open>clearAllEdits\<close> wipes the overlay raster and resets the
  history to a single entry, the snapshot of the wiped raster, with the index at 0, so
  that neither undo nor redo is enabled. On a canvas without pixels the snapshot raises
  \<open>IndexSizeError\<close>.
\<close>

theorem clearAllEdits_single_entry:
  "(nonempty (editCanvas s) \<longrightarrow>
      (\<exists>s'. clearAllEdits s = Inr s'
           \<and> editCanvas s' = blank (width (editCanvas s)) (height (editCanvas s))
           \<and> editHistory s' = [editCanvas s']
           \<and> historyIndex s' = 0 \<and> \<not> canUndo s' \<and> \<not> canRedo s'))
   \<and> (\<not> nonempty (editCanvas s) \<longrightarrow> clearAllEdits s = Inl IndexSizeError)"
proof (intro conjI impI)
  let ?t = "s\<lparr>editCanvas := clearRect (editCanvas s), editHistory := [], historyIndex := - 1\<rparr>"
  assume "nonempty (editCanvas s)"
  then have ne: "nonempty (editCanvas ?t)"
    by (simp add: nonempty_def clearRect_def)
  have p: "pushed ?t = [clearRect (editCanvas s)]"
    by (simp add: pushed_def slice0_def)
  have b: "clearRect (editCanvas s) = blank (width (editCanvas s)) (height (editCanvas s))"
    by (simp add: clearRect_def blank_def)
  from ne obtain s' where "saveState ?t = Inr s'"
    "editHistory s' = [clearRect (editCanvas s)]" "historyIndex s' = 0"
    "editCanvas s' = clearRect (editCanvas s)"
    by (rule saveState_nonempty) (simp add: p maxHistorySize_def)
  then show "\<exists>s'. clearAllEdits s = Inr s'
           \<and> editCanvas s' = blank (width (editCanvas s)) (height (editCanvas s))
           \<and> editHistory s' = [editCanvas s']
           \<and> historyIndex s' = 0 \<and> \<not> canUndo s' \<and> \<not> canRedo s'"
    by (simp add: clearAllEdits_def canUndo_def canRedo_def b)
next
  assume "\<not> nonempty (editCanvas s)"
  then have "\<not> nonempty (editCanvas (s\<lparr>editCanvas := clearRect (editCanvas s),
      editHistory := [], historyIndex := - 1\<rparr>))"
    by (simp add: nonempty_def clearRect_def)
  then show "clearAllEdits s = Inl IndexSizeError"
    unfolding clearAllEdits_def by (rule saveState_empty)
qed

theorem clearAllEdits_single_entry_witness:
  "nonempty (editCanvas (PDFEditor_new (blank 1 1)))
   \<and> (\<exists>s'. clearAllEdits (PDFEditor_new (blank 1 1)) = Inr s'
          \<and> editCanvas s' = blank 300 150
          \<and> editHistory s' = [blank 300 150]
          \<and> historyIndex s' = 0 \<and> \<not> canUndo s' \<and> \<not> canRedo s')"
proof -
  let ?s = "PDFEditor_new (blank 1 1)"
  have ne: "nonempty (editCanvas ?s)"
    by (simp add: PDFEditor_new_def nonempty_def)
  have c: "editCanvas ?s = blank 300 150"
    by (simp add: PDFEditor_new_def)
  from clearAllEdits_single_entry [of ?s] ne obtain s' where
    "clearAllEdits ?s = Inr s'"
    "editCanvas s' = blank (width (editCanvas ?s)) (height (editCanvas ?s))"
    "editHistory s' = [editCanvas s']"
    "historyIndex s' = 0" "\<not> canUndo s'" "\<not> canRedo s'"
    by blast
  then show ?thesis using ne unfolding c by simp
qed

text \<open>
  C5 as stated leaves zero entries. Cleared right after construction, the editor holds
  one.
\<close>

theorem clearAllEdits_counterexample:
  "map_sum id (length \<circ> editHistory) (clearAllEdits (PDFEditor_new (blank 1 1))) = Inr 1"
  by (simp add: clearAllEdits_def clearRect_def saveState_def getImageData_def Let_def
      slice0_def maxHistorySize_def PDFEditor_new_def)

subsection \<open>The text flow\<close>

text \<open>
  C6. Whitespace-only text. While a text edit is in progress whose content is empty or
  only white space after trimming, switching the tool and every other call that ends the
  edit (\<open>finishTextEdit\<close> on blur or on the commit key, \<open>disableEditMode\<close>, a
  pointer-down that opens the next edit) return with the history, its index and the
  canvas unchanged; \<open>finishTextEdit\<close> emits nothing and leaves no edit in progress.
\<close>

theorem blank_text_is_cancelled:
  assumes "editingText s" "trim (textContent s) = []"
  shows "overlay_untouched s (setTool R tool s)
       \<and> overlay_untouched s (finishTextEdit R s)
       \<and> overlay_untouched s (disableEditMode R s)
       \<and> overlay_untouched s (startTextEdit R x y s)
       \<and> map_sum id emitted (finishTextEdit R s) = Inr (emitted s)
       \<and> map_sum id editingText (finishTextEdit R s) = Inr False"
  using assms
  by (simp add: overlay_untouched_def setTool_def disableEditMode_def startTextEdit_def
      finishTextEdit_cancel clearSelection_def Let_def)

theorem blank_text_is_cancelled_witness:
  "editingText ((PDFEditor_new (blank 1 1))\<lparr>editingText := True, textContent := [0x20, 0x9, 0xA]\<rparr>)
   \<and> trim (textContent ((PDFEditor_new (blank 1 1))\<lparr>editingText := True, textContent := [0x20, 0x9, 0xA]\<rparr>)) = []
   \<and> overlay_untouched ((PDFEditor_new (blank 1 1))\<lparr>editingText := True, textContent := [0x20, 0x9, 0xA]\<rparr>)
        (setTool sample_renderer ''draw''
          ((PDFEditor_new (blank 1 1))\<lparr>editingText := True, textContent := [0x20, 0x9, 0xA]\<rparr>))
   \<and> overlay_untouched ((PDFEditor_new (blank 1 1))\<lparr>editingText := True, textContent := [0x20, 0x9, 0xA]\<rparr>)
        (finishTextEdit sample_renderer
          ((PDFEditor_new (blank 1 1))\<lparr>editingText := True, textContent := [0x20, 0x9, 0xA]\<rparr>))"
proof -
  let ?s = "(PDFEditor_new (blank 1 1))\<lparr>editingText := True, textContent := [0x20, 0x9, 0xA]\<rparr>"
  have a: "editingText ?s" by simp
  have b: "trim (textContent ?s) = []" by (simp add: trim_def isWhiteSpace_def)
  from blank_text_is_cancelled [OF a b, of sample_renderer "''draw''"] a b
  show ?thesis by blast
qed

text \<open>
  C10. A pointer-down with the text tool while text that is not blank is pending, on a
  canvas that holds pixels: \<open>startTextEdit\<close> returns, and in edit mode with the text
  tool \<open>handleEditMouseDown\<close> returns the same state. The canvas is the old one on
  which the pending text has been rasterised: each of its lines painted by \<open>fillText\<close>
  in the current colour, size and font, line \<open>i\<close> at the position of the editor lowered
  by \<open>i\<close> times 1.2 times the size. The lines are the segments of the text between line
  feeds: there is at least one, none holds a line feed, and joined by line feeds they are
  the text. The position is the one \<open>parseInt\<close> reads back: for a coordinate
  printed in decimal notation its integer part, rounded towards zero, and for one
  printed in exponent notation the leading digit of its magnitude with its sign, that is
  the integer part of the magnitude scaled by the power of ten that brings it between 1
  and 10. The history is
  the entries up to the index followed by exactly one new entry, the snapshot of that
  canvas, less the oldest entry when the capacity is exceeded; one \<open>stateChanged\<close> is
  emitted. Then the new edit is open: empty, at the pointer's position.
\<close>

theorem pointer_down_commits_pending_text:
  assumes "editingText s" "trim (textContent s) \<noteq> []" "nonempty (editCanvas s)"
  shows "(\<exists>s'. startTextEdit R x y s = Inr s'
           \<and> (isEditMode s \<and> currentTool s = ''text'' \<longrightarrow>
                 handleEditMouseDown R x y s = Inr s')
           \<and> editCanvas s' =
               paint_lines R (textColor s) (textSize s) (textFont s)
                 (of_int (parseInt (editorLeft s))) (of_int (parseInt (editorTop s))) 0
                 (split_lines (textContent s)) (editCanvas s)
           \<and> editHistory s' =
               (let h = slice0 (editHistory s) (historyIndex s + 1) @ [editCanvas s']
                in if length h > maxHistorySize then tl h else h)
           \<and> historyIndex s' =
               (let h = slice0 (editHistory s) (historyIndex s + 1) @ [editCanvas s']
                in if length h > maxHistorySize then historyIndex s else historyIndex s + 1)
           \<and> emitted s' = emitted s @ [StateChanged (canUndo s') (canRedo s')]
           \<and> editingText s' \<and> textContent s' = []
           \<and> editorLeft s' = x \<and> editorTop s' = y)
       \<and> split_lines (textContent s) \<noteq> []
       \<and> list_all (\<lambda>l. 0xA \<notin> set l) (split_lines (textContent s))
       \<and> join_lines (split_lines (textContent s)) = textContent s
       \<and> (editorLeft s = 0
            \<or> (1 / 1000000 \<le> \<bar>editorLeft s\<bar> \<and> \<bar>editorLeft s\<bar> < 1000000000000000000000) \<longrightarrow>
          parseInt (editorLeft s) =
            (if editorLeft s < 0 then \<lceil>editorLeft s\<rceil> else \<lfloor>editorLeft s\<rfloor>))
       \<and> (editorTop s = 0
            \<or> (1 / 1000000 \<le> \<bar>editorTop s\<bar> \<and> \<bar>editorTop s\<bar> < 1000000000000000000000) \<longrightarrow>
          parseInt (editorTop s) =
            (if editorTop s < 0 then \<lceil>editorTop s\<rceil> else \<lfloor>editorTop s\<rfloor>))
       \<and> (editorLeft s \<noteq> 0 \<and> \<bar>editorLeft s\<bar> < 1 / 1000000 \<longrightarrow>
          (\<exists>k. 1 \<le> \<bar>editorLeft s\<bar> * 10 ^ k \<and> \<bar>editorLeft s\<bar> * 10 ^ k < 10
             \<and> parseInt (editorLeft s) =
                 (if editorLeft s < 0 then - \<lfloor>\<bar>editorLeft s\<bar> * 10 ^ k\<rfloor>
                  else \<lfloor>\<bar>editorLeft s\<bar> * 10 ^ k\<rfloor>)))
       \<and> (1000000000000000000000 \<le> \<bar>editorLeft s\<bar> \<longrightarrow>
          (\<exists>k. 1 \<le> \<bar>editorLeft s\<bar> / 10 ^ k \<and> \<bar>editorLeft s\<bar> / 10 ^ k < 10
             \<and> parseInt (editorLeft s) =
                 (if editorLeft s < 0 then - \<lfloor>\<bar>editorLeft s\<bar> / 10 ^ k\<rfloor>
                  else \<lfloor>\<bar>editorLeft s\<bar> / 10 ^ k\<rfloor>)))
       \<and> (editorTop s \<noteq> 0 \<and> \<bar>editorTop s\<bar> < 1 / 1000000 \<longrightarrow>
          (\<exists>k. 1 \<le> \<bar>editorTop s\<bar> * 10 ^ k \<and> \<bar>editorTop s\<bar> * 10 ^ k < 10
             \<and> parseInt (editorTop s) =
                 (if editorTop s < 0 then - \<lfloor>\<bar>editorTop s\<bar> * 10 ^ k\<rfloor>
                  else \<lfloor>\<bar>editorTop s\<bar> * 10 ^ k\<rfloor>)))
       \<and> (1000000000000000000000 \<le> \<bar>editorTop s\<bar> \<longrightarrow>
          (\<exists>k. 1 \<le> \<bar>editorTop s\<bar> / 10 ^ k \<and> \<bar>editorTop s\<bar> / 10 ^ k < 10
             \<and> parseInt (editorTop s) =
                 (if editorTop s < 0 then - \<lfloor>\<bar>editorTop s\<bar> / 10 ^ k\<rfloor>
                  else \<lfloor>\<bar>editorTop s\<bar> / 10 ^ k\<rfloor>)))"
proof -
  from assms obtain s1 where s1: "finishTextEdit R s = Inr s1"
    "editCanvas s1 =
           paint_lines R (textColor s) (textSize s) (textFont s)
             (of_int (parseInt (editorLeft s))) (of_int (parseInt (editorTop s))) 0
             (split_lines (textContent s)) (editCanvas s)"
    "editHistory s1 =
           (let h = slice0 (editHistory s) (historyIndex s + 1) @ [editCanvas s1]
            in if length h > maxHistorySize then tl h else h)"
    "historyIndex s1 =
           (let h = slice0 (editHistory s) (historyIndex s + 1) @ [editCanvas s1]
            in if length h > maxHistorySize then historyIndex s else historyIndex s + 1)"
    "emitted s1 = emitted s @ [StateChanged (canUndo s1) (canRedo s1)]"
    by (rule finishTextEdit_commit)
  let ?s' = "s1\<lparr>editingText := True, editorDisplay := ''block'',
                editorLeft := x, editorTop := y, textContent := []\<rparr>"
  have r: "startTextEdit R x y s = Inr ?s'"
    using s1(1) by (simp add: startTextEdit_def)
  have m: "isEditMode s \<and> currentTool s = ''text'' \<longrightarrow>
      handleEditMouseDown R x y s = Inr ?s'"
    using r by (simp add: handleEditMouseDown_def)
  have cu: "canUndo ?s' = canUndo s1" "canRedo ?s' = canRedo s1"
    by (simp_all add: canUndo_def canRedo_def)
  have l: "split_lines (textContent s) \<noteq> []"
    "list_all (\<lambda>l. 0xA \<notin> set l) (split_lines (textContent s))"
    "join_lines (split_lines (textContent s)) = textContent s"
    by (rule split_lines_nonempty, rule split_lines_no_feed, rule join_split_lines)
  have "\<exists>s'. startTextEdit R x y s = Inr s'
           \<and> (isEditMode s \<and> currentTool s = ''text'' \<longrightarrow>
                 handleEditMouseDown R x y s = Inr s')
           \<and> editCanvas s' =
               paint_lines R (textColor s) (textSize s) (textFont s)
                 (of_int (parseInt (editorLeft s))) (of_int (parseInt (editorTop s))) 0
                 (split_lines (textContent s)) (editCanvas s)
           \<and> editHistory s' =
               (let h = slice0 (editHistory s) (historyIndex s + 1) @ [editCanvas s']
                in if length h > maxHistorySize then tl h else h)
           \<and> historyIndex s' =
               (let h = slice0 (editHistory s) (historyIndex s + 1) @ [editCanvas s']
                in if length h > maxHistorySize then historyIndex s else historyIndex s + 1)
           \<and> emitted s' = emitted s @ [StateChanged (canUndo s') (canRedo s')]
           \<and> editingText s' \<and> textContent s' = []
           \<and> editorLeft s' = x \<and> editorTop s' = y"
    using r m s1(2,3,4,5) cu by (simp add: Let_def)
  then have main: "\<exists>s'. startTextEdit R x y s = Inr s'
           \<and> (isEditMode s \<and> currentTool s = ''text'' \<longrightarrow>
                 handleEditMouseDown R x y s = Inr s')
           \<and> editCanvas s' =
               paint_lines R (textColor s) (textSize s) (textFont s)
                 (of_int (parseInt (editorLeft s))) (of_int (parseInt (editorTop s))) 0
                 (split_lines (textContent s)) (editCanvas s)
           \<and> editHistory s' =
               (let h = slice0 (editHistory s) (historyIndex s + 1) @ [editCanvas s']
                in if length h > maxHistorySize then tl h else h)
           \<and> historyIndex s' =
               (let h = slice0 (editHistory s) (historyIndex s + 1) @ [editCanvas s']
                in if length h > maxHistorySize then historyIndex s else historyIndex s + 1)
           \<and> emitted s' = emitted s @ [StateChanged (canUndo s') (canRedo s')]
           \<and> editingText s' \<and> textContent s' = []
           \<and> editorLeft s' = x \<and> editorTop s' = y" .
  have dl: "editorLeft s = 0
            \<or> (1 / 1000000 \<le> \<bar>editorLeft s\<bar> \<and> \<bar>editorLeft s\<bar> < 1000000000000000000000) \<longrightarrow>
          parseInt (editorLeft s) = (if editorLeft s < 0 then \<lceil>editorLeft s\<rceil> else \<lfloor>editorLeft s\<rfloor>)"
    using parseInt_decimal [of "editorLeft s"] by blast
  have sl: "editorLeft s \<noteq> 0 \<and> \<bar>editorLeft s\<bar> < 1 / 1000000 \<longrightarrow>
          (\<exists>k. 1 \<le> \<bar>editorLeft s\<bar> * 10 ^ k \<and> \<bar>editorLeft s\<bar> * 10 ^ k < 10
             \<and> parseInt (editorLeft s) =
                 (if editorLeft s < 0 then - \<lfloor>\<bar>editorLeft s\<bar> * 10 ^ k\<rfloor>
                  else \<lfloor>\<bar>editorLeft s\<bar> * 10 ^ k\<rfloor>))"
    using parseInt_exponent_small [of "editorLeft s"] by blast
  have gl: "1000000000000000000000 \<le> \<bar>editorLeft s\<bar> \<longrightarrow>
          (\<exists>k. 1 \<le> \<bar>editorLeft s\<bar> / 10 ^ k \<and> \<bar>editorLeft s\<bar> / 10 ^ k < 10
             \<and> parseInt (editorLeft s) =
                 (if editorLeft s < 0 then - \<lfloor>\<bar>editorLeft s\<bar> / 10 ^ k\<rfloor>
                  else \<lfloor>\<bar>editorLeft s\<bar> / 10 ^ k\<rfloor>))"
    using parseInt_exponent_large [of "editorLeft s"] by blast
  have dt: "editorTop s = 0
            \<or> (1 / 1000000 \<le> \<bar>editorTop s\<bar> \<and> \<bar>editorTop s\<bar> < 1000000000000000000000) \<longrightarrow>
          parseInt (editorTop s) = (if editorTop s < 0 then \<lceil>editorTop s\<rceil> else \<lfloor>editorTop s\<rfloor>)"
    using parseInt_decimal [of "editorTop s"] by blast
  have st: "editorTop s \<noteq> 0 \<and> \<bar>editorTop s\<bar> < 1 / 1000000 \<longrightarrow>
          (\<exists>k. 1 \<le> \<bar>editorTop s\<bar> * 10 ^ k \<and> \<bar>editorTop s\<bar> * 10 ^ k < 10
             \<and> parseInt (editorTop s) =
                 (if editorTop s < 0 then - \<lfloor>\<bar>editorTop s\<bar> * 10 ^ k\<rfloor>
                  else \<lfloor>\<bar>editorTop s\<bar> * 10 ^ k\<rfloor>))"
    using parseInt_exponent_small [of "editorTop s"] by blast
  have gt: "1000000000000000000000 \<le> \<bar>editorTop s\<bar> \<longrightarrow>
          (\<exists>k. 1 \<le> \<bar>editorTop s\<bar> / 10 ^ k \<and> \<bar>editorTop s\<bar> / 10 ^ k < 10
             \<and> parseInt (editorTop s) =
                 (if editorTop s < 0 then - \<lfloor>\<bar>editorTop s\<bar> / 10 ^ k\<rfloor>
                  else \<lfloor>\<bar>editorTop s\<bar> / 10 ^ k\<rfloor>))"
    using parseInt_exponent_large [of "editorTop s"] by blast
  from main l dl dt sl gl st gt show ?thesis by (intro conjI)
qed

theorem pointer_down_commits_pending_text_witness:
  "editingText ((PDFEditor_new (blank 1 1))
       \<lparr>isEditMode := True, textSize := 5 / 6, editCanvas := blank 2 2, editingText := True,
        textContent := [0x41, 0xA, 0x42], editorLeft := 3 / 2, editorTop := 0\<rparr>)
   \<and> trim (textContent ((PDFEditor_new (blank 1 1))
       \<lparr>isEditMode := True, textSize := 5 / 6, editCanvas := blank 2 2, editingText := True,
        textContent := [0x41, 0xA, 0x42], editorLeft := 3 / 2, editorTop := 0\<rparr>)) \<noteq> []
   \<and> (\<exists>s'. handleEditMouseDown sample_renderer 40 50 ((PDFEditor_new (blank 1 1))
         \<lparr>isEditMode := True, textSize := 5 / 6, editCanvas := blank 2 2, editingText := True,
          textContent := [0x41, 0xA, 0x42], editorLeft := 3 / 2, editorTop := 0\<rparr>) = Inr s'
        \<and> editCanvas s' =
            \<lparr>width = 2, height = 2,
             pixels = [(0, 0, 0, 0), (0, 0, 0, 255), (0, 0, 0, 0), (0, 0, 0, 255)]\<rparr>
        \<and> editHistory s' = [editCanvas s']
        \<and> emitted s' = [StateChanged False False]
        \<and> editingText s' \<and> textContent s' = [] \<and> editorLeft s' = 40 \<and> editorTop s' = 50)"
proof -
  let ?s = "(PDFEditor_new (blank 1 1))
       \<lparr>isEditMode := True, textSize := 5 / 6, editCanvas := blank 2 2, editingText := True,
        textContent := [0x41, 0xA, 0x42], editorLeft := 3 / 2, editorTop := 0\<rparr>"
  let ?c = "\<lparr>width = 2, height = 2,
             pixels = [(0, 0, 0, 0), (0, 0, 0, 255), (0, 0, 0, 0), (0, 0, 0, 255) :: pixel]\<rparr>"
  have a: "editingText ?s" by simp
  have b: "trim (textContent ?s) \<noteq> []" by (simp add: trim_def isWhiteSpace_def)
  have c: "nonempty (editCanvas ?s)" by (simp add: nonempty_def)
  have d: "isEditMode ?s \<and> currentTool ?s = ''text''" by (simp add: PDFEditor_new_def)
  have p: "paint_lines sample_renderer (textColor ?s) (textSize ?s) (textFont ?s)
      (of_int (parseInt (editorLeft ?s))) (of_int (parseInt (editorTop ?s))) 0
      (split_lines (textContent ?s)) (editCanvas ?s) = ?c"
  proof -
    have "paint_lines sample_renderer (textColor ?s) (textSize ?s) (textFont ?s)
        (of_int (parseInt (editorLeft ?s))) (of_int (parseInt (editorTop ?s))) 0
        (split_lines (textContent ?s)) (editCanvas ?s)
      = paint_lines sample_renderer ''#000000'' (5 / 6) ''Helvetica''
        (of_int (parseInt (3 / 2))) (of_int (parseInt 0)) 0
        (split_lines [0x41, 0xA, 0x42]) (blank 2 2)"
      by (simp only: PDFEditor_new_def PDFEditor.simps)
    also have "\<dots> = ?c"
      by code_simp
    finally show ?thesis .
  qed
  from pointer_down_commits_pending_text [OF a b c, of sample_renderer 40 50, THEN conjunct1] d
  obtain s' where s': "handleEditMouseDown sample_renderer 40 50 ?s = Inr s'"
    "editCanvas s' =
       paint_lines sample_renderer (textColor ?s) (textSize ?s) (textFont ?s)
         (of_int (parseInt (editorLeft ?s))) (of_int (parseInt (editorTop ?s))) 0
         (split_lines (textContent ?s)) (editCanvas ?s)"
    "editHistory s' =
       (let h = slice0 (editHistory ?s) (historyIndex ?s + 1) @ [editCanvas s']
        in if length h > maxHistorySize then tl h else h)"
    "historyIndex s' =
       (let h = slice0 (editHistory ?s) (historyIndex ?s + 1) @ [editCanvas s']
        in if length h > maxHistorySize then historyIndex ?s else historyIndex ?s + 1)"
    "emitted s' = emitted ?s @ [StateChanged (canUndo s') (canRedo s')]"
    "editingText s'" "textContent s' = []" "editorLeft s' = 40" "editorTop s' = 50"
    by blast
  from s'(2) have k: "editCanvas s' = ?c" unfolding p .
  have e: "slice0 (editHistory ?s) (historyIndex ?s + 1) = []" "emitted ?s = []"
    by (simp_all add: PDFEditor_new_def slice0_def)
  from s'(3) have h: "editHistory s' = [editCanvas s']"
    unfolding e by (simp add: maxHistorySize_def)
  from s'(4) have i: "historyIndex s' = 0"
    unfolding e by (simp add: maxHistorySize_def PDFEditor_new_def)
  from s'(5) h i have m: "emitted s' = [StateChanged False False]"
    unfolding e by (simp add: canUndo_def canRedo_def)
  from a b s'(1) k h m s'(6,7,8,9) show ?thesis by blast
qed

subsection \<open>Tools\<close>

text \<open>
  C7, as the code has it. \<open>setTool\<close> does not inspect the variant and rejects none:
  for every variant, recognised or not, the call finalises the pending text edit, makes
  the variant the current tool, sets the cursor (a crosshair for every variant other
  than text, highlight and select) and emits \<open>toolChanged\<close> with it. With no text edit
  open, or a blank one, finalising closes the editor and leaves the canvas and the
  history as they were. With text that is not blank pending on a canvas that holds
  pixels, finalising paints the text on the canvas and appends one snapshot of it to the
  history, and \<open>stateChanged\<close> is emitted before \<open>toolChanged\<close>. With such text
  pending on a canvas without pixels the snapshot raises \<open>IndexSizeError\<close>, and so
  does the call, for every variant alike.
\<close>

theorem setTool_accepts_every_tool:
  "(\<not> editingText s \<or> trim (textContent s) = [] \<longrightarrow>
      (\<exists>s'. setTool R tool s = Inr s' \<and> currentTool s' = tool
           \<and> cursor s' = (if tool = ''text'' then ''text''
                           else if tool = ''highlight'' then ''cell''
                           else if tool = ''select'' then ''default'' else ''crosshair'')
           \<and> \<not> editingText s' \<and> textContent s' = []
           \<and> editCanvas s' = editCanvas s
           \<and> editHistory s' = editHistory s \<and> historyIndex s' = historyIndex s
           \<and> emitted s' = emitted s @ [ToolChanged tool]))
   \<and> (editingText s \<and> trim (textContent s) \<noteq> [] \<and> nonempty (editCanvas s) \<longrightarrow>
      (\<exists>s'. setTool R tool s = Inr s' \<and> currentTool s' = tool
           \<and> cursor s' = (if tool = ''text'' then ''text''
                           else if tool = ''highlight'' then ''cell''
                           else if tool = ''select'' then ''default'' else ''crosshair'')
           \<and> \<not> editingText s' \<and> textContent s' = []
           \<and> editCanvas s' =
               paint_lines R (textColor s) (textSize s) (textFont s)
                 (of_int (parseInt (editorLeft s))) (of_int (parseInt (editorTop s))) 0
                 (split_lines (textContent s)) (editCanvas s)
           \<and> editHistory s' =
               (let h = slice0 (editHistory s) (historyIndex s + 1) @ [editCanvas s']
                in if length h > maxHistorySize then tl h else h)
           \<and> historyIndex s' =
               (let h = slice0 (editHistory s) (historyIndex s + 1) @ [editCanvas s']
                in if length h > maxHistorySize then historyIndex s else historyIndex s + 1)
           \<and> emitted s' =
               emitted s @ [StateChanged (canUndo s') (canRedo s'), ToolChanged tool]))
   \<and> (editingText s \<and> trim (textContent s) \<noteq> [] \<and> \<not> nonempty (editCanvas s) \<longrightarrow>
      setTool R tool s = Inl IndexSizeError)"
proof (intro conjI impI)
  let ?u = "s\<lparr>currentTool := tool\<rparr>"
  let ?cur = "if tool = ''text'' then ''text''
              else if tool = ''highlight'' then ''cell''
              else if tool = ''select'' then ''default'' else ''crosshair''"
  {
    assume "\<not> editingText s \<or> trim (textContent s) = []"
    then have "finishTextEdit R ?u = Inr (cancelTextEdit ?u)"
      by (intro finishTextEdit_cancel) simp
    then show "\<exists>s'. setTool R tool s = Inr s' \<and> currentTool s' = tool
           \<and> cursor s' = ?cur
           \<and> \<not> editingText s' \<and> textContent s' = []
           \<and> editCanvas s' = editCanvas s
           \<and> editHistory s' = editHistory s \<and> historyIndex s' = historyIndex s
           \<and> emitted s' = emitted s @ [ToolChanged tool]"
      by (simp add: setTool_def Let_def clearSelection_def)
  }
  {
    assume a: "editingText s \<and> trim (textContent s) \<noteq> [] \<and> nonempty (editCanvas s)"
    then have "editingText ?u" "trim (textContent ?u) \<noteq> []" "nonempty (editCanvas ?u)"
      by simp_all
    then obtain s1 where s1: "finishTextEdit R ?u = Inr s1"
      "editCanvas s1 =
           paint_lines R (textColor ?u) (textSize ?u) (textFont ?u)
             (of_int (parseInt (editorLeft ?u))) (of_int (parseInt (editorTop ?u))) 0
             (split_lines (textContent ?u)) (editCanvas ?u)"
      "editHistory s1 =
           (let h = slice0 (editHistory ?u) (historyIndex ?u + 1) @ [editCanvas s1]
            in if length h > maxHistorySize then tl h else h)"
      "historyIndex s1 =
           (let h = slice0 (editHistory ?u) (historyIndex ?u + 1) @ [editCanvas s1]
            in if length h > maxHistorySize then historyIndex ?u else historyIndex ?u + 1)"
      "emitted s1 = emitted ?u @ [StateChanged (canUndo s1) (canRedo s1)]"
      "\<not> editingText s1" "textContent s1 = []" "currentTool s1 = currentTool ?u"
      by (rule finishTextEdit_commit)
    let ?s' = "emit (ToolChanged tool) ((clearSelection s1)\<lparr>cursor := ?cur\<rparr>)"
    have r: "setTool R tool s = Inr ?s'"
      using s1(1) by (simp add: setTool_def Let_def)
    have cu: "canUndo ?s' = canUndo s1" "canRedo ?s' = canRedo s1"
      by (simp_all add: canUndo_def canRedo_def clearSelection_def)
    show "\<exists>s'. setTool R tool s = Inr s' \<and> currentTool s' = tool
           \<and> cursor s' = ?cur
           \<and> \<not> editingText s' \<and> textContent s' = []
           \<and> editCanvas s' =
               paint_lines R (textColor s) (textSize s) (textFont s)
                 (of_int (parseInt (editorLeft s))) (of_int (parseInt (editorTop s))) 0
                 (split_lines (textContent s)) (editCanvas s)
           \<and> editHistory s' =
               (let h = slice0 (editHistory s) (historyIndex s + 1) @ [editCanvas s']
                in if length h > maxHistorySize then tl h else h)
           \<and> historyIndex s' =
               (let h = slice0 (editHistory s) (historyIndex s + 1) @ [editCanvas s']
                in if length h > maxHistorySize then historyIndex s else historyIndex s + 1)
           \<and> emitted s' =
               emitted s @ [StateChanged (canUndo s') (canRedo s'), ToolChanged tool]"
      using r s1(2,3,4,5,6,7,8) cu by (simp add: Let_def clearSelection_def)
  }
  {
    assume a: "editingText s \<and> trim (textContent s) \<noteq> [] \<and> \<not> nonempty (editCanvas s)"
    let ?t = "cancelTextEdit (addTextElement R (textContent s) (parseInt (editorLeft s))
      (parseInt (editorTop s)) ?u)"
    have f: "finishTextEdit R ?u = saveState ?t"
      using a by (simp add: finishTextEdit_def Let_def)
    have "\<not> nonempty (editCanvas ?t)"
      using a by (simp add: nonempty_def addTextElement_size)
    then have "saveState ?t = Inl IndexSizeError" by (rule saveState_empty)
    then show "setTool R tool s = Inl IndexSizeError"
      using f by (simp add: setTool_def)
  }
qed

theorem setTool_accepts_every_tool_witness:
  "editingText ((PDFEditor_new (blank 1 1))
       \<lparr>editCanvas := blank 2 2, editingText := True, textContent := [0x48, 0x69],
        editorLeft := 0, editorTop := 1\<rparr>)
   \<and> nonempty (editCanvas ((PDFEditor_new (blank 1 1))
       \<lparr>editCanvas := blank 2 2, editingText := True, textContent := [0x48, 0x69],
        editorLeft := 0, editorTop := 1\<rparr>))
   \<and> (\<exists>s'. setTool sample_renderer ''eraser'' ((PDFEditor_new (blank 1 1))
         \<lparr>editCanvas := blank 2 2, editingText := True, textContent := [0x48, 0x69],
          editorLeft := 0, editorTop := 1\<rparr>) = Inr s'
        \<and> currentTool s' = ''eraser'' \<and> cursor s' = ''crosshair''
        \<and> \<not> editingText s'
        \<and> editCanvas s' =
            \<lparr>width = 2, height = 2,
             pixels = [(0, 0, 0, 0), (0, 0, 0, 0), (0, 0, 0, 255), (0, 0, 0, 0)]\<rparr>
        \<and> editHistory s' = [editCanvas s']
        \<and> emitted s' = [StateChanged False False, ToolChanged ''eraser''])
   \<and> (\<exists>t. setTool sample_renderer ''annotate'' (PDFEditor_new (blank 1 1)) = Inr t
        \<and> currentTool t = ''annotate'' \<and> cursor t = ''crosshair''
        \<and> editHistory t = [] \<and> emitted t = [ToolChanged ''annotate''])
   \<and> setTool sample_renderer ''eraser'' ((PDFEditor_new (blank 1 1))
         \<lparr>editCanvas := blank 0 0, editingText := True, textContent := [0x48, 0x69]\<rparr>)
       = Inl IndexSizeError"
proof -
  let ?s = "(PDFEditor_new (blank 1 1))
       \<lparr>editCanvas := blank 2 2, editingText := True, textContent := [0x48, 0x69],
        editorLeft := 0, editorTop := 1\<rparr>"
  let ?c = "\<lparr>width = 2, height = 2,
             pixels = [(0, 0, 0, 0), (0, 0, 0, 0), (0, 0, 0, 255), (0, 0, 0, 0) :: pixel]\<rparr>"
  have a: "editingText ?s" by simp
  have b: "trim (textContent ?s) \<noteq> []" by (simp add: trim_def isWhiteSpace_def)
  have c: "nonempty (editCanvas ?s)" by (simp add: nonempty_def)
  have p: "paint_lines sample_renderer (textColor ?s) (textSize ?s) (textFont ?s)
      (of_int (parseInt (editorLeft ?s))) (of_int (parseInt (editorTop ?s))) 0
      (split_lines (textContent ?s)) (editCanvas ?s) = ?c"
  proof -
    have "paint_lines sample_renderer (textColor ?s) (textSize ?s) (textFont ?s)
        (of_int (parseInt (editorLeft ?s))) (of_int (parseInt (editorTop ?s))) 0
        (split_lines (textContent ?s)) (editCanvas ?s)
      = paint_lines sample_renderer ''#000000'' 12 ''Helvetica''
        (of_int (parseInt 0)) (of_int (parseInt 1)) 0
        (split_lines [0x48, 0x69]) (blank 2 2)"
      by (simp only: PDFEditor_new_def PDFEditor.simps)
    also have "\<dots> = ?c"
      by code_simp
    finally show ?thesis .
  qed
  have e: "slice0 (editHistory ?s) (historyIndex ?s + 1) = []" "emitted ?s = []"
    by (simp_all add: PDFEditor_new_def slice0_def)
  from setTool_accepts_every_tool [of ?s sample_renderer "''eraser''",
      THEN conjunct2, THEN conjunct1] a b c
  obtain s' where s': "setTool sample_renderer ''eraser'' ?s = Inr s'"
    "currentTool s' = ''eraser''"
    "cursor s' = (if ''eraser'' = ''text'' then ''text''
                  else if ''eraser'' = ''highlight'' then ''cell''
                  else if ''eraser'' = ''select'' then ''default'' else ''crosshair'')"
    "\<not> editingText s'"
    "editCanvas s' =
       paint_lines sample_renderer (textColor ?s) (textSize ?s) (textFont ?s)
         (of_int (parseInt (editorLeft ?s))) (of_int (parseInt (editorTop ?s))) 0
         (split_lines (textContent ?s)) (editCanvas ?s)"
    "editHistory s' =
       (let h = slice0 (editHistory ?s) (historyIndex ?s + 1) @ [editCanvas s']
        in if length h > maxHistorySize then tl h else h)"
    "historyIndex s' =
       (let h = slice0 (editHistory ?s) (historyIndex ?s + 1) @ [editCanvas s']
        in if length h > maxHistorySize then historyIndex ?s else historyIndex ?s + 1)"
    "emitted s' = emitted ?s @ [StateChanged (canUndo s') (canRedo s'), ToolChanged ''eraser'']"
    by blast
  from s'(3) have cur: "cursor s' = ''crosshair''" by simp
  from s'(5) have k: "editCanvas s' = ?c" unfolding p .
  from s'(6) have h: "editHistory s' = [editCanvas s']"
    unfolding e by (simp add: maxHistorySize_def)
  from s'(7) have i: "historyIndex s' = 0"
    unfolding e by (simp add: maxHistorySize_def PDFEditor_new_def)
  from s'(8) h i have m: "emitted s' = [StateChanged False False, ToolChanged ''eraser'']"
    unfolding e by (simp add: canUndo_def canRedo_def)
  let ?n = "PDFEditor_new (blank 1 1)"
  have n: "\<not> editingText ?n \<or> trim (textContent ?n) = []"
    by (simp add: PDFEditor_new_def)
  from setTool_accepts_every_tool [of ?n sample_renderer "''annotate''", THEN conjunct1] n
  obtain t where t: "setTool sample_renderer ''annotate'' ?n = Inr t"
    "currentTool t = ''annotate''"
    "cursor t = (if ''annotate'' = ''text'' then ''text''
                 else if ''annotate'' = ''highlight'' then ''cell''
                 else if ''annotate'' = ''select'' then ''default'' else ''crosshair'')"
    "editHistory t = editHistory ?n"
    "emitted t = emitted ?n @ [ToolChanged ''annotate'']"
    by blast
  from t(3) have tc: "cursor t = ''crosshair''" by simp
  from t(4) have th: "editHistory t = []" by (simp add: PDFEditor_new_def)
  from t(5) have te: "emitted t = [ToolChanged ''annotate'']" by (simp add: PDFEditor_new_def)
  let ?z = "(PDFEditor_new (blank 1 1))
         \<lparr>editCanvas := blank 0 0, editingText := True, textContent := [0x48, 0x69]\<rparr>"
  have z: "editingText ?z \<and> trim (textContent ?z) \<noteq> [] \<and> \<not> nonempty (editCanvas ?z)"
    by (simp add: trim_def isWhiteSpace_def nonempty_def)
  from setTool_accepts_every_tool [of ?z sample_renderer "''eraser''",
      THEN conjunct2, THEN conjunct2] z
  have zr: "setTool sample_renderer ''eraser'' ?z = Inl IndexSizeError" by blast
  have first: "\<exists>s'. setTool sample_renderer ''eraser'' ?s = Inr s'
        \<and> currentTool s' = ''eraser'' \<and> cursor s' = ''crosshair''
        \<and> \<not> editingText s'
        \<and> editCanvas s' = ?c
        \<and> editHistory s' = [editCanvas s']
        \<and> emitted s' = [StateChanged False False, ToolChanged ''eraser'']"
    using s'(1,2,4) cur k h m by blast
  have second: "\<exists>t. setTool sample_renderer ''annotate'' ?n = Inr t
        \<and> currentTool t = ''annotate'' \<and> cursor t = ''crosshair''
        \<and> editHistory t = [] \<and> emitted t = [ToolChanged ''annotate'']"
    using t(1,2) tc th te by blast
  from a c first second zr show ?thesis by (intro conjI)
qed

text \<open>
  C7 as stated has an unrecognised variant rejected. The panel of the application offers
  an \<open>annotate\<close> tool; \<open>setTool\<close> returns with it as the current tool.
\<close>

theorem setTool_counterexample:
  "map_sum id currentTool (setTool sample_renderer ''annotate'' (PDFEditor_new (blank 1 1)))
     = Inr ''annotate''"
  by (simp add: setTool_def finishTextEdit_def PDFEditor_new_def Let_def clearSelection_def
      cancelTextEdit_def emit_def)

subsection \<open>Export\<close>

text \<open>What \<open>drawImage\<close> and \<open>exportAsImage\<close> return and when they raise.\<close>

lemma pixel_at_blank: "pixel_at (blank w h) x y = transparent"
proof (cases "x < w \<and> y < h")
  case True
  then have "y * w + x < y * w + w" by simp
  also have "\<dots> = Suc y * w" by simp
  also have "\<dots> \<le> h * w" using True by (intro mult_le_mono1) simp
  finally have "y * w + x < w * h" by (simp add: mult.commute)
  then show ?thesis by (simp add: pixel_at_def)
next
  case False
  then show ?thesis by (auto simp: pixel_at_def)
qed

lemma drawImage_empty: "\<not> nonempty src \<Longrightarrow> drawImage R src dst = Inl InvalidStateError"
  by (simp add: drawImage_def nonempty_def)

lemma drawImage_nonempty:
  assumes "nonempty src"
  shows "\<exists>img. drawImage R src dst = Inr img
           \<and> width img = width dst \<and> height img = height dst \<and> wf_bitmap img
           \<and> (\<forall>x y. x < width dst \<and> y < height dst \<longrightarrow>
                pixel_at img x y =
                  (if x < width src \<and> y < height src
                   then sourceOver R (pixel_at src x y) (pixel_at dst x y)
                   else pixel_at dst x y))"
proof -
  let ?f = "\<lambda>i. if i mod width dst < width src \<and> i div width dst < height src
                  then sourceOver R (pixel_at src (i mod width dst) (i div width dst))
                                    (pixel_at dst (i mod width dst) (i div width dst))
                  else pixel_at dst (i mod width dst) (i div width dst)"
  let ?img = "dst\<lparr>pixels := map ?f [0 ..< width dst * height dst]\<rparr>"
  have d: "drawImage R src dst = Inr ?img"
    using assms by (simp add: drawImage_def nonempty_def)
  have px: "pixel_at ?img x y =
             (if x < width src \<and> y < height src
              then sourceOver R (pixel_at src x y) (pixel_at dst x y) else pixel_at dst x y)"
    if "x < width dst" "y < height dst" for x y
  proof -
    have "y * width dst + x < y * width dst + width dst" using that by simp
    also have "\<dots> = Suc y * width dst" by simp
    also have "\<dots> \<le> height dst * width dst" using that by (intro mult_le_mono1) simp
    finally have i: "y * width dst + x < width dst * height dst" by (simp add: mult.commute)
    have m: "(y * width dst + x) mod width dst = x" "(y * width dst + x) div width dst = y"
      using that by simp_all
    show ?thesis using i m that by (simp add: pixel_at_def)
  qed
  have "width ?img = width dst" "height ?img = height dst" "wf_bitmap ?img"
    by (simp_all add: wf_bitmap_def)
  with d px show ?thesis by blast
qed

lemma exportAsImage_composite:
  assumes "pdfCanvas s = Some page" "nonempty page" "nonempty (editCanvas s)"
  shows "\<exists>img. exportAsImage R s = Inr img
           \<and> width img = width page \<and> height img = height page \<and> wf_bitmap img
           \<and> (\<forall>x y. x < width page \<and> y < height page \<longrightarrow>
                pixel_at img x y =
                  (if x < width (editCanvas s) \<and> y < height (editCanvas s)
                   then sourceOver R (pixel_at (editCanvas s) x y)
                          (sourceOver R (pixel_at page x y) transparent)
                   else sourceOver R (pixel_at page x y) transparent))"
proof -
  let ?b = "blank (width page) (height page)"
  from drawImage_nonempty [OF assms(2), of R ?b]
  obtain c1 where c1: "drawImage R page ?b = Inr c1"
    "width c1 = width page" "height c1 = height page"
    and q1: "\<forall>x y. x < width ?b \<and> y < height ?b \<longrightarrow>
           pixel_at c1 x y =
             (if x < width page \<and> y < height page
              then sourceOver R (pixel_at page x y) (pixel_at ?b x y) else pixel_at ?b x y)"
    by auto
  from drawImage_nonempty [OF assms(3), of R c1]
  obtain c2 where c2: "drawImage R (editCanvas s) c1 = Inr c2"
    "width c2 = width c1" "height c2 = height c1" "wf_bitmap c2"
    and q2: "\<forall>x y. x < width c1 \<and> y < height c1 \<longrightarrow>
           pixel_at c2 x y =
             (if x < width (editCanvas s) \<and> y < height (editCanvas s)
              then sourceOver R (pixel_at (editCanvas s) x y) (pixel_at c1 x y)
              else pixel_at c1 x y)"
    by auto
  have e: "exportAsImage R s = Inr c2"
    using assms(1) c1(1) c2(1) by (simp add: exportAsImage_def Let_def)
  have p1: "pixel_at c1 x y = sourceOver R (pixel_at page x y) transparent"
    if "x < width page" "y < height page" for x y
    using q1 that by (simp add: pixel_at_blank)
  have p2: "pixel_at c2 x y =
      (if x < width (editCanvas s) \<and> y < height (editCanvas s)
       then sourceOver R (pixel_at (editCanvas s) x y)
              (sourceOver R (pixel_at page x y) transparent)
       else sourceOver R (pixel_at page x y) transparent)"
    if "x < width page" "y < height page" for x y
    using q2 that c1(2,3) p1 [of x y] by simp
  show ?thesis
    using e c2(2,3,4) c1(2,3) p2 by auto
qed

lemma exportAsImage_raises:
  "pdfCanvas s = None \<Longrightarrow> exportAsImage R s = Inl TypeError"
  "pdfCanvas s = Some page \<Longrightarrow> \<not> nonempty page \<or> \<not> nonempty (editCanvas s) \<Longrightarrow>
     exportAsImage R s = Inl InvalidStateError"
proof -
  show "pdfCanvas s = None \<Longrightarrow> exportAsImage R s = Inl TypeError"
    by (simp add: exportAsImage_def)
next
  assume a: "pdfCanvas s = Some page" "\<not> nonempty page \<or> \<not> nonempty (editCanvas s)"
  show "exportAsImage R s = Inl InvalidStateError"
  proof (cases "nonempty page")
    case False
    then show ?thesis using a(1) by (simp add: exportAsImage_def Let_def drawImage_empty)
  next
    case True
    then obtain c1 where "drawImage R page (blank (width page) (height page)) = Inr c1"
      using drawImage_nonempty [of page R "blank (width page) (height page)"] by auto
    moreover from a(2) True have "\<not> nonempty (editCanvas s)" by simp
    ultimately show ?thesis
      using a(1) by (simp add: exportAsImage_def Let_def drawImage_empty)
  qed
qed

lemma exportAsImage_no_Error: "exportAsImage R s \<noteq> Inl (Error m)"
proof (cases "pdfCanvas s")
  case None
  then show ?thesis by (simp add: exportAsImage_raises(1))
next
  case (Some page)
  show ?thesis
  proof (cases "nonempty page \<and> nonempty (editCanvas s)")
    case True
    with exportAsImage_composite [OF Some, of R] show ?thesis by auto
  next
    case False
    with exportAsImage_raises(2) [OF Some, of R] show ?thesis by auto
  qed
qed

lemma exportEditedPDF_loaded:
  "\<exists>e d. engine s = Some e \<and> currentPDF e = Some d \<Longrightarrow> exportEditedPDF R s = exportAsImage R s"
  by (auto simp: exportEditedPDF_def)

lemma exportEditedPDF_not_loaded:
  "\<not> (\<exists>e d. engine s = Some e \<and> currentPDF e = Some d) \<Longrightarrow>
     exportEditedPDF R s = Inl (Error ''No PDF loaded'')"
  by (auto simp: exportEditedPDF_def split: option.splits)

text \<open>
  C8, as the code has it. \<open>exportEditedPDF\<close> fails with the error \<open>No PDF loaded\<close>
  exactly when the editor has no engine or the engine has no document, whether or not a
  page has been rendered. With a document loaded, a page canvas and an overlay that both
  hold pixels, it returns the composite: an image of the size of the page canvas, each
  pixel of which is the pixel of the overlay drawn over the pixel of the page canvas
  drawn over a transparent one, and outside the overlay the pixel of the page canvas
  alone. With a document loaded it raises \<open>TypeError\<close> when the page canvas is missing
  and \<open>InvalidStateError\<close> when the page canvas or the overlay holds no pixels. After
  every rendering of a page that holds pixels the export returns, and the composite is
  the rendered page under the emptied overlay.
\<close>

theorem exportEditedPDF_guard:
  "(exportEditedPDF R s = Inl (Error ''No PDF loaded'') \<longleftrightarrow>
      \<not> (\<exists>e d. engine s = Some e \<and> currentPDF e = Some d))
   \<and> ((\<exists>e d. engine s = Some e \<and> currentPDF e = Some d) \<and> pdfCanvas s = Some page
        \<and> nonempty page \<and> nonempty (editCanvas s) \<longrightarrow>
        (\<exists>img. exportEditedPDF R s = Inr img
           \<and> width img = width page \<and> height img = height page \<and> wf_bitmap img
           \<and> (\<forall>x y. x < width page \<and> y < height page \<longrightarrow>
                pixel_at img x y =
                  (if x < width (editCanvas s) \<and> y < height (editCanvas s)
                   then sourceOver R (pixel_at (editCanvas s) x y)
                          (sourceOver R (pixel_at page x y) transparent)
                   else sourceOver R (pixel_at page x y) transparent))))
   \<and> ((\<exists>e d. engine s = Some e \<and> currentPDF e = Some d) \<and> pdfCanvas s = None \<longrightarrow>
        exportEditedPDF R s = Inl TypeError)
   \<and> ((\<exists>e d. engine s = Some e \<and> currentPDF e = Some d) \<and> pdfCanvas s = Some page
        \<and> (\<not> nonempty page \<or> \<not> nonempty (editCanvas s)) \<longrightarrow>
        exportEditedPDF R s = Inl InvalidStateError)
   \<and> (engine s = Some e \<and> nonempty rendered
        \<and> engine_renderPage rendered pageNumber s = Inr s' \<longrightarrow>
        (\<exists>img. exportEditedPDF R s' = Inr img
           \<and> width img = width rendered \<and> height img = height rendered \<and> wf_bitmap img
           \<and> (\<forall>x y. x < width rendered \<and> y < height rendered \<longrightarrow>
                pixel_at img x y =
                  sourceOver R transparent (sourceOver R (pixel_at rendered x y) transparent))))"
proof (intro conjI impI)
  show "exportEditedPDF R s = Inl (Error ''No PDF loaded'') \<longleftrightarrow>
      \<not> (\<exists>e d. engine s = Some e \<and> currentPDF e = Some d)"
  proof (cases "\<exists>e d. engine s = Some e \<and> currentPDF e = Some d")
    case True
    then have "exportEditedPDF R s = exportAsImage R s" by (rule exportEditedPDF_loaded)
    with True show ?thesis by (simp add: exportAsImage_no_Error)
  next
    case False
    then show ?thesis by (simp add: exportEditedPDF_not_loaded)
  qed
next
  assume a: "(\<exists>e d. engine s = Some e \<and> currentPDF e = Some d) \<and> pdfCanvas s = Some page
        \<and> nonempty page \<and> nonempty (editCanvas s)"
  then have "exportEditedPDF R s = exportAsImage R s" by (simp add: exportEditedPDF_loaded)
  with a exportAsImage_composite [of s page R]
  show "\<exists>img. exportEditedPDF R s = Inr img
           \<and> width img = width page \<and> height img = height page \<and> wf_bitmap img
           \<and> (\<forall>x y. x < width page \<and> y < height page \<longrightarrow>
                pixel_at img x y =
                  (if x < width (editCanvas s) \<and> y < height (editCanvas s)
                   then sourceOver R (pixel_at (editCanvas s) x y)
                          (sourceOver R (pixel_at page x y) transparent)
                   else sourceOver R (pixel_at page x y) transparent))"
    by simp
next
  assume a: "(\<exists>e d. engine s = Some e \<and> currentPDF e = Some d) \<and> pdfCanvas s = None"
  then have "exportEditedPDF R s = exportAsImage R s" by (simp add: exportEditedPDF_loaded)
  with a show "exportEditedPDF R s = Inl TypeError" by (simp add: exportAsImage_raises(1))
next
  assume a: "(\<exists>e d. engine s = Some e \<and> currentPDF e = Some d) \<and> pdfCanvas s = Some page
        \<and> (\<not> nonempty page \<or> \<not> nonempty (editCanvas s))"
  then have "exportEditedPDF R s = exportAsImage R s" by (simp add: exportEditedPDF_loaded)
  with a exportAsImage_raises(2) [of s page R]
  show "exportEditedPDF R s = Inl InvalidStateError" by simp
next
  assume a: "engine s = Some e \<and> nonempty rendered
        \<and> engine_renderPage rendered pageNumber s = Inr s'"
  then obtain e1 where e1: "renderPage pageNumber e = Inr e1" "engine s' = Some e1"
    "pdfCanvas s' = Some rendered"
    "editCanvas s' = blank (width rendered) (height rendered)"
    by (cases "renderPage pageNumber e")
      (auto simp: engine_renderPage_def syncOverlaySize_Some split: option.splits)
  from e1(1) have "currentPDF e1 = currentPDF e" "currentPDF e \<noteq> None"
    by (auto simp: renderPage_def split: if_splits)
  with e1(2) have l: "\<exists>e d. engine s' = Some e \<and> currentPDF e = Some d" by auto
  then have x: "exportEditedPDF R s' = exportAsImage R s'" by (rule exportEditedPDF_loaded)
  have ne: "nonempty (editCanvas s')" using a e1(4) by (simp add: nonempty_def)
  from a have "nonempty rendered" by simp
  from exportAsImage_composite [OF e1(3) this ne, of R] x e1(4)
  show "\<exists>img. exportEditedPDF R s' = Inr img
           \<and> width img = width rendered \<and> height img = height rendered \<and> wf_bitmap img
           \<and> (\<forall>x y. x < width rendered \<and> y < height rendered \<longrightarrow>
                pixel_at img x y =
                  sourceOver R transparent (sourceOver R (pixel_at rendered x y) transparent))"
    by (simp add: pixel_at_blank)
qed

theorem exportEditedPDF_guard_witness:
  "exportEditedPDF sample_renderer (PDFEditor_new (blank 1 1)) = Inl (Error ''No PDF loaded'')
   \<and> (\<exists>img. exportEditedPDF sample_renderer
          ((setEngine (Some (loadPDF 3 PDFEngine_new))
             (PDFEditor_new \<lparr>width = 2, height = 1,
                pixels = [(255, 255, 255, 255), (255, 255, 255, 255)]\<rparr>))
           \<lparr>editCanvas := \<lparr>width = 2, height = 1,
                pixels = [(0, 0, 0, 255), (0, 0, 0, 0)]\<rparr>\<rparr>) = Inr img
        \<and> width img = 2 \<and> height img = 1
        \<and> pixel_at img 0 0 = (0, 0, 0, 255)
        \<and> pixel_at img 1 0 = (255, 255, 255, 255))
   \<and> (\<exists>s' img. engine_renderPage
            \<lparr>width = 2, height = 1, pixels = [(255, 255, 255, 255), (255, 255, 255, 255)]\<rparr> 1
            (setEngine (Some (loadPDF 3 PDFEngine_new)) (PDFEditor_new (blank 1 1))) = Inr s'
        \<and> exportEditedPDF sample_renderer s' = Inr img
        \<and> width img = 2 \<and> height img = 1
        \<and> pixel_at img 0 0 = (255, 255, 255, 255)
        \<and> pixel_at img 1 0 = (255, 255, 255, 255))
   \<and> exportEditedPDF sample_renderer
        ((setEngine (Some (loadPDF 3 PDFEngine_new)) (PDFEditor_new (blank 1 1)))
         \<lparr>pdfCanvas := None\<rparr>) = Inl TypeError
   \<and> exportEditedPDF sample_renderer
        (setEngine (Some (loadPDF 3 PDFEngine_new)) (PDFEditor_new (blank 0 0)))
       = Inl InvalidStateError"
proof -
  let ?init = "PDFEditor_new (blank 1 1)"
  let ?page = "\<lparr>width = 2, height = 1,
                pixels = [(255, 255, 255, 255), (255, 255, 255, 255) :: pixel]\<rparr>"
  let ?over = "\<lparr>width = 2, height = 1, pixels = [(0, 0, 0, 255), (0, 0, 0, 0) :: pixel]\<rparr>"
  let ?s = "(setEngine (Some (loadPDF 3 PDFEngine_new)) (PDFEditor_new ?page))
           \<lparr>editCanvas := ?over\<rparr>"
  have na: "\<not> (\<exists>e d. engine ?init = Some e \<and> currentPDF e = Some d)"
    by (simp add: PDFEditor_new_def)
  have a: "exportEditedPDF sample_renderer ?init = Inl (Error ''No PDF loaded'')"
    using exportEditedPDF_guard [where R = sample_renderer and s = ?init, THEN conjunct1] na
    by blast
  have l: "(\<exists>e d. engine ?s = Some e \<and> currentPDF e = Some d) \<and> pdfCanvas ?s = Some ?page
        \<and> nonempty ?page \<and> nonempty (editCanvas ?s)"
    by (simp add: setEngine_def loadPDF_def PDFEditor_new_def nonempty_def)
  from exportEditedPDF_guard [where R = sample_renderer and s = ?s and page = ?page,
      THEN conjunct2, THEN conjunct1] l
  obtain img where img: "exportEditedPDF sample_renderer ?s = Inr img"
    "width img = width ?page" "height img = height ?page"
    and px: "\<forall>x y. x < width ?page \<and> y < height ?page \<longrightarrow>
                pixel_at img x y =
                  (if x < width (editCanvas ?s) \<and> y < height (editCanvas ?s)
                   then sourceOver sample_renderer (pixel_at (editCanvas ?s) x y)
                          (sourceOver sample_renderer (pixel_at ?page x y) transparent)
                   else sourceOver sample_renderer (pixel_at ?page x y) transparent)"
    by blast
  from px have "pixel_at img 0 0 =
      sourceOver sample_renderer (pixel_at ?over 0 0)
        (sourceOver sample_renderer (pixel_at ?page 0 0) transparent)"
    by simp
  then have p0: "pixel_at img 0 0 = (0, 0, 0, 255)"
    by (simp add: pixel_at_def sample_renderer_def transparent_def)
  from px have "pixel_at img 1 0 =
      sourceOver sample_renderer (pixel_at ?over 1 0)
        (sourceOver sample_renderer (pixel_at ?page 1 0) transparent)"
    by simp
  then have p1: "pixel_at img 1 0 = (255, 255, 255, 255)"
    by (simp add: pixel_at_def sample_renderer_def transparent_def)
  from img(2,3) have d: "width img = 2" "height img = 1" by simp_all
  have second: "\<exists>img. exportEditedPDF sample_renderer ?s = Inr img
        \<and> width img = 2 \<and> height img = 1
        \<and> pixel_at img 0 0 = (0, 0, 0, 255)
        \<and> pixel_at img 1 0 = (255, 255, 255, 255)"
    using img(1) d p0 p1 by blast
  let ?s0 = "setEngine (Some (loadPDF 3 PDFEngine_new)) (PDFEditor_new (blank 1 1))"
  obtain s' where s': "engine_renderPage ?page 1 ?s0 = Inr s'"
    by (simp add: engine_renderPage_def renderPage_def setEngine_def loadPDF_def
        PDFEngine_new_def PDFEditor_new_def)
  have r: "engine ?s0 = Some (loadPDF 3 PDFEngine_new) \<and> nonempty ?page
      \<and> engine_renderPage ?page 1 ?s0 = Inr s'"
    using s' by (simp add: setEngine_def nonempty_def)
  from exportEditedPDF_guard [where R = sample_renderer and s = ?s0
      and e = "loadPDF 3 PDFEngine_new" and rendered = ?page and pageNumber = 1 and s' = s',
      THEN conjunct2, THEN conjunct2, THEN conjunct2, THEN conjunct2] r
  obtain img2 where img2: "exportEditedPDF sample_renderer s' = Inr img2"
    "width img2 = width ?page" "height img2 = height ?page"
    and px2: "\<forall>x y. x < width ?page \<and> y < height ?page \<longrightarrow>
                pixel_at img2 x y =
                  sourceOver sample_renderer transparent
                    (sourceOver sample_renderer (pixel_at ?page x y) transparent)"
    by blast
  from px2 have "pixel_at img2 0 0 = sourceOver sample_renderer transparent
      (sourceOver sample_renderer (pixel_at ?page 0 0) transparent)"
    by simp
  then have q0: "pixel_at img2 0 0 = (255, 255, 255, 255)"
    by (simp add: pixel_at_def sample_renderer_def transparent_def)
  from px2 have "pixel_at img2 1 0 = sourceOver sample_renderer transparent
      (sourceOver sample_renderer (pixel_at ?page 1 0) transparent)"
    by simp
  then have q1: "pixel_at img2 1 0 = (255, 255, 255, 255)"
    by (simp add: pixel_at_def sample_renderer_def transparent_def)
  from img2(2,3) have d2: "width img2 = 2" "height img2 = 1" by simp_all
  have third: "\<exists>s' img. engine_renderPage ?page 1 ?s0 = Inr s'
        \<and> exportEditedPDF sample_renderer s' = Inr img
        \<and> width img = 2 \<and> height img = 1
        \<and> pixel_at img 0 0 = (255, 255, 255, 255)
        \<and> pixel_at img 1 0 = (255, 255, 255, 255)"
    using s' img2(1) d2 q0 q1 by blast
  let ?m = "?s0\<lparr>pdfCanvas := None\<rparr>"
  have mh: "(\<exists>e d. engine ?m = Some e \<and> currentPDF e = Some d) \<and> pdfCanvas ?m = None"
    by (simp add: setEngine_def loadPDF_def)
  from exportEditedPDF_guard [where R = sample_renderer and s = ?m,
      THEN conjunct2, THEN conjunct2, THEN conjunct1] mh
  have fourth: "exportEditedPDF sample_renderer ?m = Inl TypeError" by blast
  let ?z = "setEngine (Some (loadPDF 3 PDFEngine_new)) (PDFEditor_new (blank 0 0))"
  have zh: "(\<exists>e d. engine ?z = Some e \<and> currentPDF e = Some d)
      \<and> pdfCanvas ?z = Some (blank 0 0)
      \<and> (\<not> nonempty (blank 0 0) \<or> \<not> nonempty (editCanvas ?z))"
    by (simp add: setEngine_def loadPDF_def PDFEditor_new_def nonempty_def)
  from exportEditedPDF_guard [where R = sample_renderer and s = ?z and page = "blank 0 0",
      THEN conjunct2, THEN conjunct2, THEN conjunct2, THEN conjunct1] zh
  have fifth: "exportEditedPDF sample_renderer ?z = Inl InvalidStateError" by blast
  from a second third fourth fifth show ?thesis by (intro conjI)
qed

text \<open>
  C8 as stated has the export fail as long as no page has been rendered. With an engine
  that has loaded a document of three pages and rendered none, the export returns an
  image: the untouched page canvas, here one transparent pixel.
\<close>

theorem exportEditedPDF_counterexample:
  "\<not> pageEverRendered (engine_loadPDF 3 (setEngine (Some PDFEngine_new) (PDFEditor_new (blank 1 1))))
   \<and> exportEditedPDF sample_renderer
        (engine_loadPDF 3 (setEngine (Some PDFEngine_new) (PDFEditor_new (blank 1 1))))
      = Inr (blank 1 1)"
  by (simp add: pageEverRendered_def engine_loadPDF_def setEngine_def PDFEngine_new_def
      loadPDF_def PDFEditor_new_def exportEditedPDF_def exportAsImage_def drawImage_def
      is_PageRendered_def sample_renderer_def pixel_at_def blank_def transparent_def)

subsection \<open>Restoring an entry of another size\<close>

text \<open>
  C9, as the code has it. A restore never compares the dimensions of the entry with
  those of the canvas. Whenever undo or redo is enabled and the entry exists, the call
  returns; the canvas keeps its size, each of its pixels inside the rectangle of the
  entry, placed at the origin, takes the entry's pixel, and every other pixel stays.
\<close>

theorem restore_ignores_dimensions:
  "(canUndo s \<and> index (editHistory s) (historyIndex s - 1) = Some img \<longrightarrow>
      (\<exists>s'. undo s = Inr s' \<and> editCanvas s' = putImageData img (editCanvas s)))
   \<and> (index (editHistory s) (historyIndex s + 1) = Some img \<longrightarrow>
      (\<exists>s'. redo s = Inr s' \<and> editCanvas s' = putImageData img (editCanvas s)))
   \<and> width (putImageData img c) = width c \<and> height (putImageData img c) = height c
   \<and> (wf_bitmap c \<and> x < width c \<and> y < height c \<longrightarrow>
        pixel_at (putImageData img c) x y =
          (if x < width img \<and> y < height img then pixel_at img x y else pixel_at c x y))"
proof (intro conjI impI)
  assume "canUndo s \<and> index (editHistory s) (historyIndex s - 1) = Some img"
  then show "\<exists>s'. undo s = Inr s' \<and> editCanvas s' = putImageData img (editCanvas s)"
    by (simp add: undo_def Let_def restoreState_def)
next
  assume a: "index (editHistory s) (historyIndex s + 1) = Some img"
  then have "canRedo s" by (simp add: index_def canRedo_def split: if_splits)
  with a show "\<exists>s'. redo s = Inr s' \<and> editCanvas s' = putImageData img (editCanvas s)"
    by (simp add: redo_def Let_def restoreState_def)
next
  assume a: "wf_bitmap c \<and> x < width c \<and> y < height c"
  have i: "y * width c + x < width c * height c"
  proof -
    have "y * width c + x < y * width c + width c" using a by simp
    also have "\<dots> = Suc y * width c" by simp
    also have "\<dots> \<le> height c * width c" using a by (intro mult_le_mono1) simp
    finally show ?thesis by (simp add: mult.commute)
  qed
  have m: "(y * width c + x) mod width c = x" "(y * width c + x) div width c = y"
    using a by simp_all
  show "pixel_at (putImageData img c) x y =
          (if x < width img \<and> y < height img then pixel_at img x y else pixel_at c x y)"
    using i m a by (simp add: pixel_at_def putImageData_def)
qed simp_all

theorem restore_ignores_dimensions_witness:
  "canUndo ((PDFEditor_new (blank 1 1))
       \<lparr>editHistory := [\<lparr>width = 1, height = 1, pixels = [(255, 0, 0, 255)]\<rparr>, blank 1 1],
        historyIndex := 1, editCanvas := blank 2 1\<rparr>)
   \<and> (\<exists>s'. undo ((PDFEditor_new (blank 1 1))
         \<lparr>editHistory := [\<lparr>width = 1, height = 1, pixels = [(255, 0, 0, 255)]\<rparr>, blank 1 1],
          historyIndex := 1, editCanvas := blank 2 1\<rparr>) = Inr s'
        \<and> editCanvas s' =
            putImageData \<lparr>width = 1, height = 1, pixels = [(255, 0, 0, 255)]\<rparr> (blank 2 1))"
proof -
  let ?img = "\<lparr>width = 1, height = 1, pixels = [(255, 0, 0, 255) :: pixel]\<rparr>"
  let ?s = "(PDFEditor_new (blank 1 1))
       \<lparr>editHistory := [?img, blank 1 1], historyIndex := 1, editCanvas := blank 2 1\<rparr>"
  have a: "canUndo ?s" by (simp add: canUndo_def)
  have b: "index (editHistory ?s) (historyIndex ?s - 1) = Some ?img"
    by (simp add: index_def)
  from restore_ignores_dimensions [of ?s ?img] a b
  obtain s' where "undo ?s = Inr s'" "editCanvas s' = putImageData ?img (editCanvas ?s)"
    by blast
  then show ?thesis using a by simp
qed

text \<open>
  C9 as stated has the mismatch detected and signalled. On an overlay of 2 by 1 a capture,
  the letter A typed at (1, 0), its commit and an undo; then the page is rendered anew at
  3 by 1, and redo returns with the pixel of the narrower entry written on the canvas.
\<close>

theorem restore_mismatch_counterexample:
  "map_sum id editCanvas
     (run [Inr \<circ> syncOverlaySize \<lparr>canvas = Some (blank 2 1)\<rparr>,
           saveState,
           startTextEdit sample_renderer 1 0,
           Inr \<circ> textContent_update (\<lambda>t. [0x41]),
           finishTextEdit sample_renderer,
           undo,
           Inr \<circ> syncOverlaySize \<lparr>canvas = Some (blank 3 1)\<rparr>,
           redo]
        (PDFEditor_new (blank 2 1)))
   = Inr \<lparr>width = 3, height = 1, pixels = [(0, 0, 0, 0), (0, 0, 0, 255), (0, 0, 0, 0)]\<rparr>"
  by (simp add: syncOverlaySize_def saveState_def getImageData_def slice0_def Let_def
      PDFEditor_new_def maxHistorySize_def emit_def canUndo_def canRedo_def
      startTextEdit_def finishTextEdit_def cancelTextEdit_def addTextElement_def
      trim_def isWhiteSpace_def parseInt_def floor_eq_iff sample_renderer_def paint_at_def
      undo_def redo_def restoreState_def index_def putImageData_def pixel_at_def
      transparent_def upt_rec enumerate_eq_zip blank_def)

end
